theory Spec2Isabelle
  imports Main "HOL-Library.Char_ord" "HOL-Library.List_Lexorder"
begin

section \<open>Python values and errors\<close>

text \<open>
  The exceptions the modelled code can raise. Every \<open>raise\<close> of the source, of the
  standard library or of the ORM is the \<open>Inl\<close> branch of a result \<open>error + 'a\<close>.
  \<open>RequestException\<close> is the transport failure of \<open>requests.request\<close>; \<open>ValueError\<close>
  covers \<open>strptime\<close> and the JSON decoding failure of \<open>.json()\<close> (a subclass of it).
  \<open>Unmodelled\<close> marks the few inputs on which the model does not follow Python
  (stated at each use); no theorem below draws a conclusion from it.
\<close>

datatype error =
    KeyError | IndexError | TypeError | AttributeError | ValueError | OverflowError
  | RecursionError | RequestException | IntegrityError | MultipleObjectsReturned
  | SSHException | IOError | Unmodelled

text \<open>
  A decoded JSON document, as \<open>response.json()\<close> returns it: \<open>None\<close>, \<open>bool\<close>, \<open>int\<close>,
  \<open>str\<close>, \<open>list\<close> and \<open>dict\<close> (an association list with distinct keys, in
  insertion order). JSON numbers with a fraction are not part of the model.
\<close>

datatype json =
    JNull | JBool bool | JInt int | JStr string | JArr "json list" | JObj "(string \<times> json) list"

subsection \<open>Decimal rendering of integers (\<open>str(n)\<close>, \<open>f"{n}"\<close>)\<close>

definition digit_chr :: "nat \<Rightarrow> char" where
  "digit_chr d = ''0123456789'' ! d"

function show_nat :: "nat \<Rightarrow> string" where
  "show_nat n = (if n < 10 then [digit_chr n] else show_nat (n div 10) @ [digit_chr (n mod 10)])"
  by pat_completeness auto
termination
  by (relation "measure id") auto

declare show_nat.simps [simp del]

definition str_int :: "int \<Rightarrow> string" where
  "str_int i = (if i < 0 then CHR ''-'' # show_nat (nat (- i)) else show_nat (nat i))"

text \<open>Zero-padding to a minimal width, as the \<open>%d\<close>, \<open>%m\<close>, \<open>%H\<close> ... directives do.\<close>

definition zpad :: "nat \<Rightarrow> nat \<Rightarrow> string" where
  "zpad w n = replicate (w - length (show_nat n)) CHR ''0'' @ show_nat n"

definition digit_val :: "char \<Rightarrow> nat option" where
  "digit_val = map_of
     [(CHR ''0'', 0), (CHR ''1'', 1), (CHR ''2'', 2), (CHR ''3'', 3), (CHR ''4'', 4),
      (CHR ''5'', 5), (CHR ''6'', 6), (CHR ''7'', 7), (CHR ''8'', 8), (CHR ''9'', 9)]"

section \<open>\<open>datetime\<close>\<close>

text \<open>
  A naive \<open>datetime.datetime\<close>: the fields of the Python object. The constructor
  accepts years 1..9999 and days that exist in the month.
\<close>

record datetime =
  year :: nat
  month :: nat
  day :: nat
  hour :: nat
  minute :: nat
  second :: nat
  microsecond :: nat

definition is_leap :: "nat \<Rightarrow> bool" where
  "is_leap y = (y mod 4 = 0 \<and> (y mod 100 \<noteq> 0 \<or> y mod 400 = 0))"

definition days_in_month :: "nat \<Rightarrow> nat \<Rightarrow> nat" where
  "days_in_month y m =
     (if m = 2 then (if is_leap y then 29 else 28)
      else if m = 4 \<or> m = 6 \<or> m = 9 \<or> m = 11 then 30 else 31)"

definition valid_datetime :: "datetime \<Rightarrow> bool" where
  "valid_datetime t =
     (1 \<le> year t \<and> year t \<le> 9999 \<and> 1 \<le> month t \<and> month t \<le> 12 \<and>
      1 \<le> day t \<and> day t \<le> days_in_month (year t) (month t) \<and>
      hour t \<le> 23 \<and> minute t \<le> 59 \<and> second t \<le> 59 \<and> microsecond t \<le> 999999)"

text \<open>
  \<open>t - timedelta(hours=1)\<close>: the same wall-clock time one hour earlier, moving to the
  previous day, month or year where needed; \<open>OverflowError\<close> before year 1.
\<close>

definition minus_one_hour :: "datetime \<Rightarrow> error + datetime" where
  "minus_one_hour t =
     (if 1 \<le> hour t then Inr (t\<lparr>hour := hour t - 1\<rparr>)
      else if 1 < day t then Inr (t\<lparr>day := day t - 1, hour := 23\<rparr>)
      else if 1 < month t then
        Inr (t\<lparr>month := month t - 1, day := days_in_month (year t) (month t - 1), hour := 23\<rparr>)
      else if 1 < year t then Inr (t\<lparr>year := year t - 1, month := 12, day := 31, hour := 23\<rparr>)
      else Inl OverflowError)"

text \<open>
  \<open>datetime.strftime\<close> for the two formats the code uses. \<open>%Y\<close> is rendered with
  four digits (the C library does not pad years below 1000 everywhere; from 1000 on
  the renderings agree).
\<close>

definition strftime_dmY :: "datetime \<Rightarrow> string" where
  "strftime_dmY t = zpad 2 (day t) @ zpad 2 (month t) @ zpad 4 (year t)"

definition strftime_iso_us :: "datetime \<Rightarrow> string" where
  "strftime_iso_us t =
     zpad 4 (year t) @ ''-'' @ zpad 2 (month t) @ ''-'' @ zpad 2 (day t) @ ''T'' @
     zpad 2 (hour t) @ '':'' @ zpad 2 (minute t) @ '':'' @ zpad 2 (second t) @ ''.'' @
     zpad 6 (microsecond t) @ ''Z''"

subsection \<open>\<open>datetime.strptime(s, "%Y-%m-%dT%H:%M:%S")\<close>\<close>

text \<open>
  The standard library compiles the format to a regular expression, one group per
  directive, matched case-insensitively from the start of the string:
  \<^verbatim>\<open>(?P<Y>\d\d\d\d)-(?P<m>1[0-2]|0[1-9]|[1-9])-(?P<d>3[0-1]|[1-2]\d|0[1-9]|[1-9]| [1-9])\<close>
  \<^verbatim>\<open>T(?P<H>2[0-3]|[0-1]\d|\d):(?P<M>[0-5]\d|\d):(?P<S>6[0-1]|[0-5]\d|\d)\<close>
  A matcher returns the ways it can match a prefix, in the order a backtracking
  matcher tries them: the value read and the rest of the input.
\<close>

type_synonym 'a matcher = "string \<Rightarrow> ('a \<times> string) list"

definition re_range :: "nat \<Rightarrow> nat \<Rightarrow> nat matcher" where
  "re_range lo hi s =
     (case s of [] \<Rightarrow> []
      | c # r \<Rightarrow> (case digit_val c of None \<Rightarrow> []
                 | Some d \<Rightarrow> if lo \<le> d \<and> d \<le> hi then [(d, r)] else []))"

definition re_two :: "nat \<Rightarrow> nat \<Rightarrow> nat \<Rightarrow> nat \<Rightarrow> nat matcher" where
  "re_two lo1 hi1 lo2 hi2 s =
     [(10 * a + b, r2). (a, r1) \<leftarrow> re_range lo1 hi1 s, (b, r2) \<leftarrow> re_range lo2 hi2 r1]"

definition re_lit :: "char list \<Rightarrow> unit matcher" where
  "re_lit cs s = (case s of [] \<Rightarrow> [] | c # r \<Rightarrow> if c \<in> set cs then [((), r)] else [])"

definition re_Y :: "nat matcher" where
  "re_Y s = [(100 * a + b, r2). (a, r1) \<leftarrow> re_two 0 9 0 9 s, (b, r2) \<leftarrow> re_two 0 9 0 9 r1]"

definition re_m :: "nat matcher" where
  "re_m s = re_two 1 1 0 2 s @ re_two 0 0 1 9 s @ re_range 1 9 s"

definition re_d :: "nat matcher" where
  "re_d s = re_two 3 3 0 1 s @ re_two 1 2 0 9 s @ re_two 0 0 1 9 s @ re_range 1 9 s @
            [(d, r2). (u, r1) \<leftarrow> re_lit '' '' s, (d, r2) \<leftarrow> re_range 1 9 r1]"

definition re_H :: "nat matcher" where
  "re_H s = re_two 2 2 0 3 s @ re_two 0 1 0 9 s @ re_range 0 9 s"

definition re_M :: "nat matcher" where
  "re_M s = re_two 0 5 0 9 s @ re_range 0 9 s"

definition re_S :: "nat matcher" where
  "re_S s = re_two 6 6 0 1 s @ re_two 0 5 0 9 s @ re_range 0 9 s"

definition re_ws_format :: "datetime matcher" where
  "re_ws_format s =
     [(\<lparr>year = Y, month = m, day = d, hour = H, minute = M, second = S, microsecond = 0\<rparr>, r11).
        (Y, r1) \<leftarrow> re_Y s, (u1, r2) \<leftarrow> re_lit ''-'' r1,
        (m, r3) \<leftarrow> re_m r2, (u2, r4) \<leftarrow> re_lit ''-'' r3,
        (d, r5) \<leftarrow> re_d r4, (u3, r6) \<leftarrow> re_lit ''Tt'' r5,
        (H, r7) \<leftarrow> re_H r6, (u4, r8) \<leftarrow> re_lit '':'' r7,
        (M, r9) \<leftarrow> re_M r8, (u5, r10) \<leftarrow> re_lit '':'' r9,
        (S, r11) \<leftarrow> re_S r10]"

text \<open>
  \<open>strptime\<close> takes the first match, raises \<open>ValueError\<close> when there is none or when
  input remains after it ("unconverted data remains"), and when the fields read are
  not a date the constructor accepts (year 0, 30 February, second 60).
\<close>

definition strptime_ws :: "string \<Rightarrow> error + datetime" where
  "strptime_ws s =
     (case re_ws_format s of
        [] \<Rightarrow> Inl ValueError
      | (t, rest) # _ \<Rightarrow>
          if rest \<noteq> [] then Inl ValueError
          else if valid_datetime t then Inr t else Inl ValueError)"

subsection \<open>\<open>str.split(sep)\<close> for a one-character separator\<close>

fun split_chr :: "char \<Rightarrow> string \<Rightarrow> string list" where
  "split_chr sep [] = [[]]"
| "split_chr sep (c # cs) =
     (if c = sep then [] # split_chr sep cs
      else (case split_chr sep cs of [] \<Rightarrow> [[c]] | w # ws \<Rightarrow> (c # w) # ws))"

subsection \<open>Sequencing of calls that may raise\<close>

definition and_then :: "error + 'a \<Rightarrow> ('a \<Rightarrow> error + 'b) \<Rightarrow> error + 'b" where
  "and_then r f = (case r of Inl e \<Rightarrow> Inl e | Inr v \<Rightarrow> f v)"

text \<open>A list comprehension whose body may raise: left to right, stopping at the first error.\<close>

fun map_err :: "('a \<Rightarrow> error + 'b) \<Rightarrow> 'a list \<Rightarrow> error + 'b list" where
  "map_err f [] = Inr []"
| "map_err f (x # xs) = and_then (f x) (\<lambda>y. and_then (map_err f xs) (\<lambda>ys. Inr (y # ys)))"

subsection \<open>Operations on decoded JSON\<close>

text \<open>\<open>d[k] = v\<close> on a dict: an existing key keeps its place, a new key goes last.\<close>

fun dict_set :: "string \<Rightarrow> 'v \<Rightarrow> (string \<times> 'v) list \<Rightarrow> (string \<times> 'v) list" where
  "dict_set k v [] = [(k, v)]"
| "dict_set k v (p # ps) = (if fst p = k then (k, v) # ps else p # dict_set k v ps)"

text \<open>
  \<open>x[k]\<close> for a string key: \<open>KeyError\<close> on a dict without the key, \<open>TypeError\<close> on
  anything that is not a dict.
\<close>

definition getitem :: "json \<Rightarrow> string \<Rightarrow> error + json" where
  "getitem x k =
     (case x of
        JObj kvs \<Rightarrow> (case map_of kvs k of None \<Rightarrow> Inl KeyError | Some v \<Rightarrow> Inr v)
      | _ \<Rightarrow> Inl TypeError)"

text \<open>
  \<open>x[0]\<close>: the first element of a list or the first character of a string
  (\<open>IndexError\<close> when empty), \<open>KeyError\<close> on a dict (its keys are strings),
  \<open>TypeError\<close> otherwise.
\<close>

definition getitem0 :: "json \<Rightarrow> error + json" where
  "getitem0 x =
     (case x of
        JArr [] \<Rightarrow> Inl IndexError
      | JArr (v # _) \<Rightarrow> Inr v
      | JStr [] \<Rightarrow> Inl IndexError
      | JStr (c # _) \<Rightarrow> Inr (JStr [c])
      | JObj _ \<Rightarrow> Inl KeyError
      | _ \<Rightarrow> Inl TypeError)"

text \<open>\<open>x.get(k)\<close>: \<open>None\<close> for a missing key; only a dict has the method.\<close>

definition dict_get :: "json \<Rightarrow> string \<Rightarrow> error + json" where
  "dict_get x k =
     (case x of
        JObj kvs \<Rightarrow> Inr (case map_of kvs k of None \<Rightarrow> JNull | Some v \<Rightarrow> v)
      | _ \<Rightarrow> Inl AttributeError)"

text \<open>Truth value of a JSON value, as \<open>if v\<close> and \<open>v or ""\<close> test it.\<close>

fun truthy :: "json \<Rightarrow> bool" where
  "truthy JNull = False"
| "truthy (JBool b) = b"
| "truthy (JInt n) = (n \<noteq> 0)"
| "truthy (JStr s) = (s \<noteq> [])"
| "truthy (JArr xs) = (xs \<noteq> [])"
| "truthy (JObj kvs) = (kvs \<noteq> [])"

text \<open>\<open>for v in x\<close>: the elements of a list, the keys of a dict, the characters of a string.\<close>

definition py_iter :: "json \<Rightarrow> error + json list" where
  "py_iter x =
     (case x of
        JArr xs \<Rightarrow> Inr xs
      | JObj kvs \<Rightarrow> Inr (map (\<lambda>kv. JStr (fst kv)) kvs)
      | JStr s \<Rightarrow> Inr (map (\<lambda>c. JStr [c]) s)
      | _ \<Rightarrow> Inl TypeError)"

text \<open>\<open>s.join(parts)\<close>: every part must be a string.\<close>

fun join_strs :: "string \<Rightarrow> string list \<Rightarrow> string" where
  "join_strs sep [] = []"
| "join_strs sep [x] = x"
| "join_strs sep (x # y # ys) = x @ sep @ join_strs sep (y # ys)"

definition as_str :: "json \<Rightarrow> error + string" where
  "as_str v = (case v of JStr s \<Rightarrow> Inr s | _ \<Rightarrow> Inl TypeError)"

definition str_join :: "string \<Rightarrow> json list \<Rightarrow> error + string" where
  "str_join sep parts = and_then (map_err as_str parts) (\<lambda>ss. Inr (join_strs sep ss))"

text \<open>
  \<open>str(v)\<close> and \<open>f"{v}"\<close> of a scalar. The rendering of a list or dict (their
  \<open>repr\<close>) is not modelled.
\<close>

definition py_str :: "json \<Rightarrow> error + string" where
  "py_str v =
     (case v of
        JNull \<Rightarrow> Inr ''None''
      | JBool b \<Rightarrow> Inr (if b then ''True'' else ''False'')
      | JInt n \<Rightarrow> Inr (str_int n)
      | JStr s \<Rightarrow> Inr s
      | _ \<Rightarrow> Inl Unmodelled)"

text \<open>
  \<open>a < b\<close>: integers (and booleans, which are integers) by value, strings
  lexicographically; \<open>TypeError\<close> for \<open>None\<close>, dicts and mixed operands. The
  element-wise comparison of two lists is not modelled.
\<close>

definition as_int :: "json \<Rightarrow> int option" where
  "as_int v = (case v of JInt n \<Rightarrow> Some n | JBool b \<Rightarrow> Some (if b then 1 else 0) | _ \<Rightarrow> None)"

definition py_lt :: "json \<Rightarrow> json \<Rightarrow> error + bool" where
  "py_lt a b =
     (case (as_int a, as_int b) of
        (Some m, Some n) \<Rightarrow> Inr (m < n)
      | _ \<Rightarrow> (case (a, b) of
                (JStr s, JStr t) \<Rightarrow> Inr (s < t)
              | (JArr _, JArr _) \<Rightarrow> Inl Unmodelled
              | _ \<Rightarrow> Inl TypeError))"

text \<open>\<open>v + 1\<close>: defined on integers only.\<close>

definition py_add1 :: "json \<Rightarrow> error + int" where
  "py_add1 v = (case as_int v of Some n \<Rightarrow> Inr (n + 1) | None \<Rightarrow> Inl TypeError)"

text \<open>\<open>v // 100\<close>: floor division, defined on integers only.\<close>

definition py_floordiv100 :: "json \<Rightarrow> error + int" where
  "py_floordiv100 v = (case as_int v of Some n \<Rightarrow> Inr (n div 100) | None \<Rightarrow> Inl TypeError)"

section \<open>\<open>Order\<close>: the static helpers\<close>

text \<open>\<open>Order.erp_strftime\<close>: \<open>""\<close> for \<open>None\<close>, else \<open>%d%m%Y\<close>.\<close>

definition erp_strftime :: "datetime option \<Rightarrow> string" where
  "erp_strftime date = (case date of None \<Rightarrow> [] | Some d \<Rightarrow> strftime_dmY d)"

text \<open>\<open>Order.ws_strptime\<close>: \<open>datetime.strptime(date.split(".")[0], "%Y-%m-%dT%H:%M:%S")\<close>.\<close>

definition ws_strptime :: "string \<Rightarrow> error + datetime" where
  "ws_strptime date =
     (case split_chr CHR ''.'' date of [] \<Rightarrow> Inl IndexError | p # _ \<Rightarrow> strptime_ws p)"

text \<open>
  \<open>Order.get_orders_filter_hours_range\<close>. \<open>now1\<close> and \<open>now2\<close> are what the two calls
  of \<open>datetime.utcnow()\<close> return (each is read only when its argument is \<open>None\<close>).
\<close>

definition get_orders_filter_hours_range ::
  "datetime \<Rightarrow> datetime \<Rightarrow> datetime option \<Rightarrow> datetime option \<Rightarrow> error + string" where
  "get_orders_filter_hours_range now1 now2 from_time to_time =
     (let from_time' = (case from_time of None \<Rightarrow> now1 | Some t \<Rightarrow> t) in
      and_then (case to_time of None \<Rightarrow> minus_one_hour now2 | Some t \<Rightarrow> Inr t)
        (\<lambda>to_time'. Inr (''creationDate:['' @ strftime_iso_us from_time' @ '' TO '' @
                          strftime_iso_us to_time' @ '']'')))"

section \<open>The records\<close>

text \<open>
  An \<open>Order\<close> instance: the model's columns, \<open>pk\<close> the primary key. The two
  timestamps of \<open>TimeStampedModel\<close> (\<open>created\<close>, \<open>modified\<close>) are left out. A date
  attribute of an unsaved instance may be \<open>None\<close>; \<open>route_text_code\<close> is nullable.
\<close>

record order =
  pk :: nat
  order_type :: string
  client_code :: string
  file_type :: string
  company_code :: string
  order_created_at :: "datetime option"
  shipping_stimate_date :: "datetime option"
  currency :: string
  buyer_fullname :: string
  buyer_document :: string
  buyer_phone :: string
  buyer_email :: string
  shipping_address :: string
  shipping_address_city :: string
  shipping_address_reference :: string
  shipping_address_zip :: string
  warehouse_code :: string
  order_number :: string
  sell_type :: string
  sell_type_code :: string
  payment_proof :: string
  seller_code :: string
  route_text_code :: "string option"
  from_api :: json

text \<open>
  An \<open>OrderItem\<close> instance; \<open>order_fk\<close> is the primary key of its order.
  \<open>item_price_without_tax\<close> is a \<open>FloatField\<close> that the factory fills with an
  integer; the record keeps the integer.
\<close>

record order_item =
  item_pk :: nat
  order_fk :: nat
  item_type :: string
  item_number :: int
  ean :: string
  item_qty :: int
  item_price_without_tax :: int
  destination_address_code :: string
  qty :: int
  tax_code :: string

text \<open>\<open>OrderItem.TaxCode\<close>.\<close>

definition TaxCode_ZERO :: string where
  "TaxCode_ZERO = ''000''"

definition TaxCode_IVA :: string where
  "TaxCode_IVA = ''001''"

section \<open>\<open>VtexClientOrder\<close>: fetching\<close>

text \<open>
  The remote API: what a \<open>GET\<close> of the list endpoint with the given query parameters
  and of the order endpoint with the given id, followed by \<open>.json()\<close>, evaluates to:
  the decoded document, \<open>RequestException\<close> (transport) or \<open>ValueError\<close> (the body
  is not JSON). The request headers are constants of the settings.
\<close>

record api =
  list_endpoint :: "(string \<times> json) list \<Rightarrow> error + json"
  order_endpoint :: "string \<Rightarrow> error + json"

definition default_querystring :: "(string \<times> json) list" where
  "default_querystring =
     [(''f_creationDate'',
       JStr ''creationDate:[2016-01-01T02:00:00.000Z TO 2021-01-01T01:59:59.999Z]'')]"

text \<open>
  The detail request of one summary: \<open>order_summary["orderId"]\<close> appended to the
  endpoint (\<open>TypeError\<close> unless it is a string), then the request.
\<close>

definition get_order_detail :: "api \<Rightarrow> json \<Rightarrow> error + json" where
  "get_order_detail a order_summary =
     and_then (getitem order_summary ''orderId'')
       (\<lambda>oid. and_then (as_str oid) (\<lambda>oid_s. order_endpoint a oid_s))"

text \<open>
  \<open>VtexClientOrder.get_orders\<close>. The first argument is the number of nested calls
  the interpreter still allows: Python raises \<open>RecursionError\<close> beyond its limit.
  The dict \<open>querystring\<close> is shared by the recursive calls, so each call overwrites
  the page of the one before.
\<close>

fun get_orders :: "nat \<Rightarrow> api \<Rightarrow> (string \<times> json) list option \<Rightarrow> int \<Rightarrow> error + json list" where
  "get_orders 0 a querystring page = Inl RecursionError"
| "get_orders (Suc depth) a querystring page =
     (let querystring' = dict_set ''page'' (JInt page)
            (case querystring of None \<Rightarrow> default_querystring | Some q \<Rightarrow> q) in
      and_then (list_endpoint a querystring') (\<lambda>order_list_api_response.
      and_then (getitem order_list_api_response ''list'') (\<lambda>summaries.
      and_then (py_iter summaries) (\<lambda>summary_list.
      and_then (map_err (get_order_detail a) summary_list) (\<lambda>orders_list.
      and_then (getitem order_list_api_response ''paging'') (\<lambda>paging.
      and_then (getitem paging ''currentPage'') (\<lambda>current_page.
      and_then (getitem paging ''pages'') (\<lambda>total_pages.
      and_then (py_lt current_page total_pages) (\<lambda>more.
        if more then
          and_then (py_add1 current_page) (\<lambda>next_page.
          and_then (get_orders depth a (Some querystring') next_page) (\<lambda>rest.
            Inr (orders_list @ rest)))
        else Inr orders_list)))))))))"

section \<open>\<open>VtexClientOrder\<close>: mapping\<close>

record address =
  city :: json
  info :: string
  reference :: json
  postal_code :: json

text \<open>The comprehension of \<open>format_ws_address_data\<close>: the fields whose \<open>.get\<close> is truthy.\<close>

fun address_parts :: "json \<Rightarrow> string list \<Rightarrow> error + json list" where
  "address_parts address_data [] = Inr []"
| "address_parts address_data (k # ks) =
     and_then (dict_get address_data k) (\<lambda>g.
       if truthy g then
         and_then (getitem address_data k) (\<lambda>v.
         and_then (address_parts address_data ks) (\<lambda>vs. Inr (v # vs)))
       else address_parts address_data ks)"

text \<open>\<open>VtexClientOrder.format_ws_address_data\<close>.\<close>

definition format_ws_address_data :: "json \<Rightarrow> error + address" where
  "format_ws_address_data order =
     and_then (getitem order ''shippingData'') (\<lambda>shipping_data.
     and_then (getitem shipping_data ''selectedAddresses'') (\<lambda>selected.
     and_then (getitem0 selected) (\<lambda>address_data.
     and_then (address_parts address_data [''street'', ''number'', ''complement'', ''neighborhood''])
       (\<lambda>parts.
     and_then (str_join '' '' parts) (\<lambda>address_info.
     and_then (dict_get address_data ''city'') (\<lambda>c.
     and_then (dict_get address_data ''reference'') (\<lambda>r.
     and_then (dict_get address_data ''postalCode'') (\<lambda>z.
       Inr \<lparr>city = c, info = address_info,
            reference = (if truthy r then r else JStr []), postal_code = z\<rparr>))))))))"

section \<open>\<open>VtexClientOrder\<close>: the file format\<close>

text \<open>\<open>f"{v}"\<close> of a nullable text attribute.\<close>

definition str_opt :: "string option \<Rightarrow> string" where
  "str_opt v = (case v of None \<Rightarrow> ''None'' | Some s \<Rightarrow> s)"

text \<open>\<open>VtexClientOrder.get_file_headers\<close>.\<close>

definition get_file_headers :: "order \<Rightarrow> string list" where
  "get_file_headers order =
     [ order_type order,
       ''|'' @ client_code order,
       ''|'' @ file_type order,
       ''|'' @ company_code order,
       ''|'' @ erp_strftime (order_created_at order),
       ''|'' @ erp_strftime (shipping_stimate_date order),
       ''|'' @ currency order,
       ''|'' @ buyer_fullname order @ ''/'' @ buyer_document order @ ''/'' @
          shipping_address_city order @ ''/'' @ shipping_address order @ ''/'' @
          buyer_phone order @ ''/'' @ shipping_address_reference order,
       ''|1'',
       ''|'' @ warehouse_code order,
       ''|'' @ order_number order,
       ''|?,'' @ buyer_document order @ '',?,'' @ buyer_fullname order @ '','' @
          sell_type order @ '','' @ shipping_address_zip order,
       ''|'' @ sell_type_code order @ '','' @ payment_proof order,
       ''|'' @ seller_code order,
       ''|'' @ str_opt (route_text_code order),
       ''|'' @ buyer_email order ]"

text \<open>
  \<open>f"{x}"\<close> of the float a \<open>FloatField\<close> holds after a read from the database,
  for an integral value \<open>n\<close>: the digits and \<open>.0\<close> (Python switches to exponent
  notation from \<open>1e16\<close> on, which is outside the model).
\<close>

definition str_float_of_int :: "int \<Rightarrow> string" where
  "str_float_of_int n = str_int n @ ''.0''"

text \<open>\<open>VtexClientOrder.get_file_items\<close>, on items read from the database.\<close>

definition file_item :: "order_item \<Rightarrow> string" where
  "file_item item =
     concat
       [ item_type item,
         ''|'' @ str_int (item_number item),
         ''|'' @ ean item,
         ''|'' @ str_int (item_qty item),
         ''|'' @ str_float_of_int (item_price_without_tax item),
         ''|'' @ destination_address_code item @ ''|'',
         ''|'' @ str_int (qty item),
         ''|'' @ tax_code item ]"

definition get_file_items :: "order_item list \<Rightarrow> string list" where
  "get_file_items items = map file_item items"

section \<open>The persistence store\<close>

text \<open>
  The two tables, rows in insertion order, and the next primary keys. A failed
  operation leaves the store as it was before that operation: each
  \<open>update_or_create\<close> is atomic, and the rows written by earlier ones stay.
\<close>

record db =
  order_rows :: "order list"
  item_rows :: "order_item list"
  next_order_pk :: nat
  next_item_pk :: nat

definition empty_db :: db where
  "empty_db = \<lparr>order_rows = [], item_rows = [], next_order_pk = 1, next_item_pk = 1\<rparr>"

text \<open>A call that reads or writes the store: its result and the store after it.\<close>

definition then_db ::
  "(error + 'a) \<times> 's \<Rightarrow> ('a \<Rightarrow> 's \<Rightarrow> (error + 'b) \<times> 's) \<Rightarrow> (error + 'b) \<times> 's" where
  "then_db r f = (case r of (Inl e, s) \<Rightarrow> (Inl e, s) | (Inr v, s) \<Rightarrow> f v s)"

text \<open>
  What a text column stores for an assigned value: \<open>str(v)\<close>; \<open>None\<close> violates the
  \<open>NOT NULL\<close> constraint when the row is written.
\<close>

definition db_text :: "json \<Rightarrow> error + string" where
  "db_text v = (if v = JNull then Inl IntegrityError else py_str v)"

text \<open>
  What an integer column stores: \<open>int(v)\<close>. The conversion of a string of digits is
  not modelled.
\<close>

definition db_int :: "json \<Rightarrow> error + int" where
  "db_int v =
     (case v of
        JNull \<Rightarrow> Inl IntegrityError
      | JStr _ \<Rightarrow> Inl Unmodelled
      | _ \<Rightarrow> (case as_int v of Some n \<Rightarrow> Inr n | None \<Rightarrow> Inl TypeError))"

text \<open>The rows a lookup by a text column's value selects; \<open>None\<close> selects none.\<close>

definition lookup_text :: "json \<Rightarrow> error + string option" where
  "lookup_text v = (if v = JNull then Inr None else and_then (py_str v) (\<lambda>s. Inr (Some s)))"

subsection \<open>\<open>VtexClientOrder.factory\<close>\<close>

text \<open>The \<open>defaults\<close> dict of the order factory, with the values as the source computes them.\<close>

record order_defaults =
  d_order_created_at :: datetime
  d_shipping_stimate_date :: datetime
  d_buyer_fullname :: string
  d_buyer_document :: json
  d_buyer_phone :: json
  d_buyer_email :: json
  d_shipping_address :: string
  d_shipping_address_city :: json
  d_shipping_address_reference :: json
  d_shipping_address_zip :: json
  d_order_number :: json
  d_route_text_code :: string
  d_from_api :: json

text \<open>\<open>date.split(".")\<close> needs a string: anything else has no such method.\<close>

definition ws_strptime_json :: "json \<Rightarrow> error + datetime" where
  "ws_strptime_json v = (case v of JStr s \<Rightarrow> ws_strptime s | _ \<Rightarrow> Inl AttributeError)"

definition make_order_defaults :: "json \<Rightarrow> error + order_defaults" where
  "make_order_defaults order =
     and_then (format_ws_address_data order) (\<lambda>address.
     and_then (getitem order ''creationDate'') (\<lambda>cd.
     and_then (ws_strptime_json cd) (\<lambda>created.
     and_then (getitem order ''shippingData'') (\<lambda>sd.
     and_then (getitem sd ''logisticsInfo'') (\<lambda>li.
     and_then (getitem0 li) (\<lambda>li0.
     and_then (getitem li0 ''shippingEstimateDate'') (\<lambda>sed.
     and_then (ws_strptime_json sed) (\<lambda>estimate.
     and_then (getitem order ''clientProfileData'') (\<lambda>profile.
     and_then (getitem profile ''firstName'') (\<lambda>first.
     and_then (py_str first) (\<lambda>first_s.
     and_then (getitem profile ''lastName'') (\<lambda>last.
     and_then (py_str last) (\<lambda>last_s.
     and_then (getitem profile ''document'') (\<lambda>document.
     and_then (getitem profile ''phone'') (\<lambda>phone.
     and_then (getitem profile ''email'') (\<lambda>email.
     and_then (getitem order ''orderId'') (\<lambda>oid.
       Inr \<lparr>d_order_created_at = created,
            d_shipping_stimate_date = estimate,
            d_buyer_fullname = first_s @ '' '' @ last_s,
            d_buyer_document = document,
            d_buyer_phone = phone,
            d_buyer_email = email,
            d_shipping_address = info address,
            d_shipping_address_city = city address,
            d_shipping_address_reference = reference address,
            d_shipping_address_zip = postal_code address,
            d_order_number = oid,
            d_route_text_code = [],
            d_from_api = order\<rparr>)))))))))))))))))"

text \<open>
  \<open>setattr(obj, k, v)\<close> for every default, with the values as the columns store them
  on \<open>save()\<close>.
\<close>

definition set_order_defaults :: "order_defaults \<Rightarrow> order \<Rightarrow> error + order" where
  "set_order_defaults d obj =
     and_then (db_text (d_buyer_document d)) (\<lambda>document.
     and_then (db_text (d_buyer_phone d)) (\<lambda>phone.
     and_then (db_text (d_buyer_email d)) (\<lambda>email.
     and_then (db_text (d_shipping_address_city d)) (\<lambda>city_s.
     and_then (db_text (d_shipping_address_reference d)) (\<lambda>reference_s.
     and_then (db_text (d_shipping_address_zip d)) (\<lambda>zip.
     and_then (db_text (d_order_number d)) (\<lambda>number.
       Inr (obj\<lparr>order_created_at := Some (d_order_created_at d),
                shipping_stimate_date := Some (d_shipping_stimate_date d),
                buyer_fullname := d_buyer_fullname d,
                buyer_document := document,
                buyer_phone := phone,
                buyer_email := email,
                shipping_address := d_shipping_address d,
                shipping_address_city := city_s,
                shipping_address_reference := reference_s,
                shipping_address_zip := zip,
                order_number := number,
                route_text_code := Some (d_route_text_code d),
                from_api := d_from_api d\<rparr>))))))))"

text \<open>
  \<open>VtexClientOrder.__init__\<close> on the keyword arguments of a creation: the constants
  of the integration. The other columns are all among the defaults.
\<close>

definition VtexClientOrder_init :: "nat \<Rightarrow> order" where
  "VtexClientOrder_init k =
     \<lparr>pk = k, order_type = ''H'', client_code = ''CT0000344'', file_type = ''E-COMM'',
      company_code = ''120'', order_created_at = None, shipping_stimate_date = None,
      currency = ''COP'', buyer_fullname = [], buyer_document = [], buyer_phone = [],
      buyer_email = [], shipping_address = [], shipping_address_city = [],
      shipping_address_reference = [], shipping_address_zip = [],
      warehouse_code = ''CM0000001'', order_number = [], sell_type = ''V010'',
      sell_type_code = ''222'', payment_proof = [], seller_code = ''V02011'',
      route_text_code = Some [], from_api = JNull\<rparr>"

text \<open>
  \<open>VtexClientOrder.objects.update_or_create(order_number=..., defaults=...)\<close>: no
  row with the number, a row is created; one, it is read (its stored values take
  precedence over the constructor's keyword arguments), the defaults are set and it
  is saved in place; several, \<open>MultipleObjectsReturned\<close>.
\<close>

definition order_update_or_create :: "order_defaults \<Rightarrow> db \<Rightarrow> (error + order) \<times> db" where
  "order_update_or_create d s =
     (case lookup_text (d_order_number d) of
        Inl e \<Rightarrow> (Inl e, s)
      | Inr key \<Rightarrow>
          (case filter (\<lambda>r. Some (order_number r) = key) (order_rows s) of
             [] \<Rightarrow>
               (case set_order_defaults d (VtexClientOrder_init (next_order_pk s)) of
                  Inl e \<Rightarrow> (Inl e, s)
                | Inr obj \<Rightarrow>
                    (Inr obj, s\<lparr>order_rows := order_rows s @ [obj],
                                next_order_pk := Suc (next_order_pk s)\<rparr>))
           | [row] \<Rightarrow>
               (case set_order_defaults d row of
                  Inl e \<Rightarrow> (Inl e, s)
                | Inr obj \<Rightarrow>
                    (Inr obj, s\<lparr>order_rows :=
                                  map (\<lambda>r. if pk r = pk row then obj else r) (order_rows s)\<rparr>))
           | _ \<Rightarrow> (Inl MultipleObjectsReturned, s)))"

fun VtexClientOrder_factory :: "json list \<Rightarrow> db \<Rightarrow> (error + order list) \<times> db" where
  "VtexClientOrder_factory [] s = (Inr [], s)"
| "VtexClientOrder_factory (order # orders) s =
     then_db (case make_order_defaults order of
                Inl e \<Rightarrow> (Inl e, s)
              | Inr d \<Rightarrow> order_update_or_create d s)
       (\<lambda>obj s'. then_db (VtexClientOrder_factory orders s')
          (\<lambda>objects s''. (Inr (obj # objects), s'')))"

subsection \<open>\<open>VtexClientOrderItem.factory\<close>\<close>

record item_defaults =
  d_item_number :: int
  d_item_qty :: json
  d_item_price_without_tax :: int

definition make_item_defaults :: "nat \<Rightarrow> json \<Rightarrow> error + item_defaults" where
  "make_item_defaults index item =
     and_then (getitem item ''quantity'') (\<lambda>quantity.
     and_then (getitem item ''price'') (\<lambda>price.
     and_then (py_floordiv100 price) (\<lambda>p.
       Inr \<lparr>d_item_number = int index + 1, d_item_qty = quantity,
            d_item_price_without_tax = p\<rparr>)))"

definition set_item_defaults :: "item_defaults \<Rightarrow> order_item \<Rightarrow> error + order_item" where
  "set_item_defaults d obj =
     and_then (db_int (d_item_qty d)) (\<lambda>q.
       Inr (obj\<lparr>item_number := d_item_number d, item_qty := q,
                item_price_without_tax := d_item_price_without_tax d\<rparr>))"

text \<open>\<open>VtexClientOrderItem.__init__\<close> on the keyword arguments of a creation.\<close>

definition VtexClientOrderItem_init :: "nat \<Rightarrow> nat \<Rightarrow> string \<Rightarrow> order_item" where
  "VtexClientOrderItem_init k fk e =
     \<lparr>item_pk = k, order_fk = fk, item_type = ''D'', item_number = 0, ean = e, item_qty = 0,
      item_price_without_tax = 0, destination_address_code = [], qty = 0,
      tax_code = TaxCode_IVA\<rparr>"

text \<open>\<open>VtexClientOrderItem.objects.update_or_create(order=order, ean=..., defaults=...)\<close>.\<close>

definition item_update_or_create ::
  "order \<Rightarrow> json \<Rightarrow> item_defaults \<Rightarrow> db \<Rightarrow> (error + order_item) \<times> db" where
  "item_update_or_create order e d s =
     (case lookup_text e of
        Inl err \<Rightarrow> (Inl err, s)
      | Inr key \<Rightarrow>
          (case filter (\<lambda>r. order_fk r = pk order \<and> Some (ean r) = key) (item_rows s) of
             [] \<Rightarrow>
               (case and_then (db_text e)
                       (\<lambda>e_s. set_item_defaults d
                                 (VtexClientOrderItem_init (next_item_pk s) (pk order) e_s)) of
                  Inl err \<Rightarrow> (Inl err, s)
                | Inr obj \<Rightarrow>
                    (Inr obj, s\<lparr>item_rows := item_rows s @ [obj],
                                next_item_pk := Suc (next_item_pk s)\<rparr>))
           | [row] \<Rightarrow>
               (case set_item_defaults d row of
                  Inl err \<Rightarrow> (Inl err, s)
                | Inr obj \<Rightarrow>
                    (Inr obj, s\<lparr>item_rows :=
                                  map (\<lambda>r. if item_pk r = item_pk row then obj else r)
                                    (item_rows s)\<rparr>))
           | _ \<Rightarrow> (Inl MultipleObjectsReturned, s)))"

text \<open>The inner loop: \<open>for index, item in enumerate(order.from_api["items"])\<close>.\<close>

fun order_items_loop :: "order \<Rightarrow> (nat \<times> json) list \<Rightarrow> db \<Rightarrow> (error + order_item list) \<times> db" where
  "order_items_loop order [] s = (Inr [], s)"
| "order_items_loop order ((index, item) # rest) s =
     then_db (case make_item_defaults index item of
                Inl err \<Rightarrow> (Inl err, s)
              | Inr d \<Rightarrow> (case getitem item ''ean'' of
                           Inl err \<Rightarrow> (Inl err, s)
                         | Inr e \<Rightarrow> item_update_or_create order e d s))
       (\<lambda>obj s'. then_db (order_items_loop order rest s')
          (\<lambda>objects s''. (Inr (obj # objects), s'')))"

fun VtexClientOrderItem_factory :: "order list \<Rightarrow> db \<Rightarrow> (error + order_item list) \<times> db" where
  "VtexClientOrderItem_factory [] s = (Inr [], s)"
| "VtexClientOrderItem_factory (order # orders) s =
     then_db (and_then (getitem (from_api order) ''items'') py_iter, s)
       (\<lambda>items s1. then_db (order_items_loop order (List.enumerate 0 items) s1)
          (\<lambda>objs s2. then_db (VtexClientOrderItem_factory orders s2)
             (\<lambda>objects s3. (Inr (objs @ objects), s3))))"

section \<open>Delivery\<close>

text \<open>
  The remote file store: whether the connection and login succeed, which paths can
  be opened for writing, and the files it holds (path and content).
\<close>

record sftp_server =
  accepts :: bool
  writable :: "string \<Rightarrow> bool"
  files :: "(string \<times> string) list"

definition newline :: string where
  "newline = [CHR 0x0A]"

text \<open>\<open>order.orderitem_set.all()\<close>: the order's rows, with no ordering requested.\<close>

definition orderitem_set :: "db \<Rightarrow> order \<Rightarrow> order_item list" where
  "orderitem_set s order = filter (\<lambda>r. order_fk r = pk order) (item_rows s)"

text \<open>
  What \<open>create_order_files\<close> writes into one file: the header segments
  (\<open>writelines\<close> adds no separator), a newline, the item lines joined by newlines.
\<close>

definition order_file_path :: "order \<Rightarrow> string" where
  "order_file_path order = ''ag-pruebas/'' @ order_number order @ ''.txt''"

definition order_file_body :: "order \<Rightarrow> order_item list \<Rightarrow> string" where
  "order_file_body order items =
     concat (get_file_headers order) @ newline @ join_strs newline (get_file_items items)"

text \<open>\<open>VtexClientOrder.create_order_files\<close>; opening a file may fail with \<open>IOError\<close>.\<close>

fun create_order_files :: "db \<Rightarrow> order list \<Rightarrow> sftp_server \<Rightarrow> error option \<times> sftp_server" where
  "create_order_files s [] srv = (None, srv)"
| "create_order_files s (order # orders) srv =
     (let items = orderitem_set s order; file_path = order_file_path order in
      if \<not> writable srv file_path then (Some IOError, srv)
      else create_order_files s orders
             (srv\<lparr>files := dict_set file_path (order_file_body order items) (files srv)\<rparr>))"

text \<open>\<open>VtexClientOrder.upload_to_sftp\<close>.\<close>

definition upload_to_sftp :: "db \<Rightarrow> order list \<Rightarrow> sftp_server \<Rightarrow> error option \<times> sftp_server" where
  "upload_to_sftp s orders srv =
     (if \<not> accepts srv then (Some SSHException, srv) else create_order_files s orders srv)"

section \<open>The entry point\<close>

text \<open>\<open>run\<close> of \<open>scripts/upload_orders_file_to_sftp.py\<close>.\<close>

definition run :: "nat \<Rightarrow> api \<Rightarrow> db \<Rightarrow> sftp_server \<Rightarrow> error option \<times> db \<times> sftp_server" where
  "run depth a s srv =
     (case get_orders depth a None 1 of
        Inl e \<Rightarrow> (Some e, s, srv)
      | Inr orders_from_api \<Rightarrow>
          (case VtexClientOrder_factory (take 3 orders_from_api) s of
             (Inl e, s1) \<Rightarrow> (Some e, s1, srv)
           | (Inr orders_from_db, s1) \<Rightarrow>
               (case VtexClientOrderItem_factory orders_from_db s1 of
                  (Inl e, s2) \<Rightarrow> (Some e, s2, srv)
                | (Inr items, s2) \<Rightarrow>
                    (case upload_to_sftp s2 orders_from_db srv of
                       (r, srv') \<Rightarrow> (r, s2, srv')))))"

section \<open>Invariants of the store\<close>

text \<open>
  No two order rows share an order number or a primary key, and the next primary
  key is above those in use. The model declares no uniqueness constraint on
  \<open>order_number\<close>; the factory keeps the numbers distinct.
\<close>

definition orders_inv :: "db \<Rightarrow> bool" where
  "orders_inv s =
     (distinct (map order_number (order_rows s)) \<and> distinct (map pk (order_rows s)) \<and>
      list_all (\<lambda>r. pk r < next_order_pk s) (order_rows s))"

text \<open>An item row that carries the constants of \<open>VtexClientOrderItem\<close>.\<close>

definition vtex_item :: "order_item \<Rightarrow> bool" where
  "vtex_item r =
     (item_type r = ''D'' \<and> qty r = 0 \<and> destination_address_code r = [] \<and>
      tax_code r = TaxCode_IVA)"

text \<open>No two item rows share a primary key, and the next primary key is above those in use.\<close>

definition items_inv :: "db \<Rightarrow> bool" where
  "items_inv s =
     (distinct (map item_pk (item_rows s)) \<and>
      list_all (\<lambda>r. item_pk r < next_item_pk s) (item_rows s))"

section \<open>Sample data\<close>

text \<open>A raw order as the detail endpoint returns it, reduced to the fields the code reads.\<close>

definition sample_address :: json where
  "sample_address =
     JObj [(''street'', JStr ''Main''), (''number'', JStr ''42''), (''complement'', JStr []),
           (''neighborhood'', JStr ''Centro''), (''city'', JStr ''Bogota''),
           (''postalCode'', JStr ''110111'')]"

definition sample_raw_order :: "string \<Rightarrow> json list \<Rightarrow> json" where
  "sample_raw_order number items =
     JObj [(''orderId'', JStr number),
           (''creationDate'', JStr ''2021-03-04T10:15:30.123Z''),
           (''clientProfileData'',
              JObj [(''firstName'', JStr ''Ana''), (''lastName'', JStr ''Diaz''),
                    (''document'', JStr ''52000111''), (''phone'', JStr ''+573001112233''),
                    (''email'', JStr ''ana@example.com'')]),
           (''shippingData'',
              JObj [(''selectedAddresses'', JArr [sample_address]),
                    (''logisticsInfo'',
                       JArr [JObj [(''shippingEstimateDate'', JStr ''2021-03-08T09:00:00.000Z'')]])]),
           (''items'', JArr items)]"

definition sample_item :: "string \<Rightarrow> int \<Rightarrow> int \<Rightarrow> json" where
  "sample_item e quantity price =
     JObj [(''ean'', JStr e), (''quantity'', JInt quantity), (''price'', JInt price)]"

text \<open>
  A remote API for the examples: \<open>pages\<close> lists the order ids of each page, the
  orders in \<open>bad\<close> cannot be fetched. The list endpoint answers
  \<open>{list: [{orderId}], paging: {currentPage, pages}}\<close>.
\<close>

definition order_summary :: "string \<Rightarrow> json" where
  "order_summary oid = JObj [(''orderId'', JStr oid)]"

definition page_response :: "json list \<Rightarrow> int \<Rightarrow> int \<Rightarrow> json" where
  "page_response summaries current_page total_pages =
     JObj [(''list'', JArr summaries),
           (''paging'', JObj [(''currentPage'', JInt current_page), (''pages'', JInt total_pages)])]"

definition fake_api :: "string list list \<Rightarrow> string list \<Rightarrow> api" where
  "fake_api pages bad =
     \<lparr>list_endpoint = (\<lambda>params.
        case map_of params ''page'' of
          Some (JInt p) \<Rightarrow>
            if 1 \<le> p \<and> p \<le> int (length pages)
            then Inr (page_response (map order_summary (pages ! nat (p - 1))) p (int (length pages)))
            else Inl RequestException
        | _ \<Rightarrow> Inl RequestException),
      order_endpoint = (\<lambda>oid.
        if oid \<in> set bad then Inl RequestException else Inr (sample_raw_order oid []))\<rparr>"

text \<open>
  An API that shows the filter it was asked with: its single page lists one order
  whose id is the \<open>f_creationDate\<close> parameter, and the detail of an order is its id.
\<close>

definition probe_api :: api where
  "probe_api =
     \<lparr>list_endpoint = (\<lambda>params.
        case map_of params ''f_creationDate'' of
          Some f \<Rightarrow> Inr (page_response [JObj [(''orderId'', f)]] 1 1)
        | None \<Rightarrow> Inl RequestException),
      order_endpoint = (\<lambda>oid. Inr (JStr oid))\<rparr>"

definition sample_now :: datetime where
  "sample_now =
     \<lparr>year = 2021, month = 3, day = 4, hour = 10, minute = 15, second = 30, microsecond = 0\<rparr>"

text \<open>The order the factory derives from \<open>sample_raw_order\<close>, with primary key \<open>k\<close>.\<close>

definition sample_order :: "nat \<Rightarrow> string \<Rightarrow> json list \<Rightarrow> order" where
  "sample_order k number items =
     \<lparr>pk = k, order_type = ''H'', client_code = ''CT0000344'', file_type = ''E-COMM'',
      company_code = ''120'',
      order_created_at = Some sample_now,
      shipping_stimate_date = Some (sample_now\<lparr>day := 8, hour := 9, minute := 0, second := 0\<rparr>),
      currency = ''COP'', buyer_fullname = ''Ana Diaz'', buyer_document = ''52000111'',
      buyer_phone = ''+573001112233'', buyer_email = ''ana@example.com'',
      shipping_address = ''Main 42 Centro'', shipping_address_city = ''Bogota'',
      shipping_address_reference = [], shipping_address_zip = ''110111'',
      warehouse_code = ''CM0000001'', order_number = number, sell_type = ''V010'',
      sell_type_code = ''222'', payment_proof = [], seller_code = ''V02011'',
      route_text_code = Some [], from_api = sample_raw_order number items\<rparr>"


text \<open>A remote file store that accepts the login and every write, and holds no file.\<close>

definition open_server :: sftp_server where
  "open_server = \<lparr>accepts = True, writable = (\<lambda>path. True), files = []\<rparr>"

text \<open>An item row as the factory creates it.\<close>

definition sample_item_row :: "nat \<Rightarrow> nat \<Rightarrow> int \<Rightarrow> string \<Rightarrow> int \<Rightarrow> int \<Rightarrow> order_item" where
  "sample_item_row k fk number e quantity price =
     \<lparr>item_pk = k, order_fk = fk, item_type = ''D'', item_number = number, ean = e,
      item_qty = quantity, item_price_without_tax = price, destination_address_code = [],
      qty = 0, tax_code = ''001''\<rparr>"



text \<open>
  An API whose single page lists the orders \<open>a\<close>, \<open>b\<close>, \<open>c\<close> and \<open>d\<close>; each order
  has one item, whose EAN is \<open>77\<close> followed by the order's id.
\<close>

definition four_orders_api :: api where
  "four_orders_api =
     \<lparr>list_endpoint = (\<lambda>params.
        Inr (page_response (map order_summary [''a'', ''b'', ''c'', ''d'']) 1 1)),
      order_endpoint = (\<lambda>oid. Inr (sample_raw_order oid [sample_item (''77'' @ oid) 2 15050]))\<rparr>"

text \<open>The store and the remote files after a sync with that API, from an empty store.\<close>

definition db_three_orders :: db where
  "db_three_orders =
     \<lparr>order_rows =
        [sample_order 1 ''a'' [sample_item ''77a'' 2 15050],
         sample_order 2 ''b'' [sample_item ''77b'' 2 15050],
         sample_order 3 ''c'' [sample_item ''77c'' 2 15050]],
      item_rows =
        [sample_item_row 1 1 1 ''77a'' 2 150, sample_item_row 2 2 1 ''77b'' 2 150,
         sample_item_row 3 3 1 ''77c'' 2 150],
      next_order_pk = 4, next_item_pk = 4\<rparr>"

definition files_three_orders :: "(string \<times> string) list" where
  "files_three_orders =
     [(''ag-pruebas/a.txt'',
       order_file_body (sample_order 1 ''a'' [sample_item ''77a'' 2 15050])
         [sample_item_row 1 1 1 ''77a'' 2 150]),
      (''ag-pruebas/b.txt'',
       order_file_body (sample_order 2 ''b'' [sample_item ''77b'' 2 15050])
         [sample_item_row 2 2 1 ''77b'' 2 150]),
      (''ag-pruebas/c.txt'',
       order_file_body (sample_order 3 ''c'' [sample_item ''77c'' 2 15050])
         [sample_item_row 3 3 1 ''77c'' 2 150])]"

text \<open>
  \<open>probe_api\<close>, except that every list request without the given
  \<open>f_creationDate\<close> filter fails.
\<close>

definition strict_probe_api :: "string \<Rightarrow> api" where
  "strict_probe_api f =
     probe_api\<lparr>list_endpoint := (\<lambda>params.
       if map_of params ''f_creationDate'' = Some (JStr f) then list_endpoint probe_api params
       else Inl RequestException)\<rparr>"

section \<open>The spec's wording of derived values\<close>

text \<open>
  The values of the given fields that are present and are non-empty strings, in
  the order of the fields.
\<close>

definition present_nonempty :: "(string \<times> json) list \<Rightarrow> string list \<Rightarrow> string list" where
  "present_nonempty kvs ks =
     concat (map (\<lambda>k. case map_of kvs k of Some (JStr s) \<Rightarrow> if s = [] then [] else [s] | _ \<Rightarrow> []) ks)"

text \<open>The order number stored for a raw order: the text of its \<open>orderId\<close>.\<close>

definition raw_order_number :: "json \<Rightarrow> error + string" where
  "raw_order_number raw = and_then (getitem raw ''orderId'') db_text"

text \<open>The EANs stored for the items of a raw order.\<close>

definition raw_item_eans :: "json \<Rightarrow> (error + string) list" where
  "raw_item_eans raw =
     (case and_then (getitem raw ''items'') py_iter of
        Inl e \<Rightarrow> []
      | Inr items \<Rightarrow> map (\<lambda>item. and_then (getitem item ''ean'') db_text) items)"

section \<open>Properties\<close>




subsection \<open>Timestamps\<close>







subsection \<open>Evaluation of the sample data\<close>

lemmas json_defs = and_then_def getitem_def getitem0_def dict_get_def str_join_def as_str_def
  py_str_def py_iter_def as_int_def py_lt_def py_add1_def py_floordiv100_def

lemmas strptime_defs = ws_strptime_def strptime_ws_def re_ws_format_def re_Y_def re_m_def re_d_def
  re_H_def re_M_def re_S_def re_two_def re_range_def re_lit_def digit_val_def valid_datetime_def
  days_in_month_def is_leap_def

lemma sample_address_data:
  "format_ws_address_data (sample_raw_order n items) =
     Inr \<lparr>city = JStr ''Bogota'', info = ''Main 42 Centro'', reference = JStr [],
          postal_code = JStr ''110111''\<rparr>"
  by (simp add: format_ws_address_data_def sample_raw_order_def sample_address_def json_defs)

lemma sample_order_defaults:
  "make_order_defaults (sample_raw_order n items) =
     Inr \<lparr>d_order_created_at =
            \<lparr>year = 2021, month = 3, day = 4, hour = 10, minute = 15, second = 30, microsecond = 0\<rparr>,
          d_shipping_stimate_date =
            \<lparr>year = 2021, month = 3, day = 8, hour = 9, minute = 0, second = 0, microsecond = 0\<rparr>,
          d_buyer_fullname = ''Ana Diaz'',
          d_buyer_document = JStr ''52000111'',
          d_buyer_phone = JStr ''+573001112233'',
          d_buyer_email = JStr ''ana@example.com'',
          d_shipping_address = ''Main 42 Centro'',
          d_shipping_address_city = JStr ''Bogota'',
          d_shipping_address_reference = JStr [],
          d_shipping_address_zip = JStr ''110111'',
          d_order_number = JStr n,
          d_route_text_code = [],
          d_from_api = sample_raw_order n items\<rparr>"
  unfolding make_order_defaults_def sample_address_data
  by (simp add: sample_raw_order_def json_defs ws_strptime_json_def strptime_defs)

subsection \<open>The header\<close>

text \<open>The header of an order has more than 15 segments.\<close>

theorem get_file_headers_fifteen_counterexample:
  "length (get_file_headers (VtexClientOrder_init 1)) \<noteq> 15"
  by (simp add: get_file_headers_def)

text \<open>
  C1 (as amended). \<open>get_file_headers\<close> returns 16 segments, not 15: the order type,
  then 15 segments that each start with a pipe, holding in this order the client
  code, file type, company code, formatted order date, formatted shipping date,
  currency, the buyer and address block, the literal \<open>1\<close>, the warehouse code, the
  order number, the localization block, the sell-type and payment block, the seller
  code, the route code and the buyer email.
\<close>

theorem get_file_headers_sixteen:
  "length (get_file_headers order) = 16 \<and>
   hd (get_file_headers order) = order_type order \<and>
   map (take 1) (tl (get_file_headers order)) = replicate 15 ''|'' \<and>
   map (drop 1) (tl (get_file_headers order)) =
     [client_code order, file_type order, company_code order,
      erp_strftime (order_created_at order), erp_strftime (shipping_stimate_date order),
      currency order,
      buyer_fullname order @ ''/'' @ buyer_document order @ ''/'' @
        shipping_address_city order @ ''/'' @ shipping_address order @ ''/'' @
        buyer_phone order @ ''/'' @ shipping_address_reference order,
      ''1'', warehouse_code order, order_number order,
      ''?,'' @ buyer_document order @ '',?,'' @ buyer_fullname order @ '','' @
        sell_type order @ '','' @ shipping_address_zip order,
      sell_type_code order @ '','' @ payment_proof order,
      seller_code order, str_opt (route_text_code order), buyer_email order]"
  by (simp add: get_file_headers_def numeral_eq_Suc)

theorem get_file_headers_sixteen_witness:
  "get_file_headers (VtexClientOrder_init 1) =
     [''H'', ''|CT0000344'', ''|E-COMM'', ''|120'', ''|'', ''|'', ''|COP'',
      ''|/////'', ''|1'', ''|CM0000001'', ''|'', ''|?,,?,,V010,'', ''|222,'',
      ''|V02011'', ''|'', ''|''] \<and>
   length (get_file_headers (VtexClientOrder_init 1)) = 16"
  using get_file_headers_sixteen [of "VtexClientOrder_init 1"]
  by (simp add: get_file_headers_def VtexClientOrder_init_def erp_strftime_def str_opt_def)

subsection \<open>The shipping address\<close>

lemma address_parts_strings:
  "address_parts (JObj kvs) ks = Inr parts \<Longrightarrow> map_err as_str parts = Inr ss \<Longrightarrow>
   ss = present_nonempty kvs ks"
proof (induction ks arbitrary: parts ss)
  case Nil
  then show ?case by (simp add: present_nonempty_def)
next
  case (Cons k ks)
  then show ?case
    by (auto simp: present_nonempty_def and_then_def dict_get_def getitem_def as_str_def
        split: option.splits sum.splits if_splits json.splits)
qed


lemma address_parts_dict: "address_parts x ks = Inr parts \<Longrightarrow> ks \<noteq> [] \<Longrightarrow> \<exists>kvs. x = JObj kvs"
  by (cases ks; cases x) (auto simp: and_then_def dict_get_def)

text \<open>
  C8. When \<open>format_ws_address_data\<close> returns, it has read the first selected shipping
  address, which is a dict; \<open>info\<close> is the space-joined list of those of street,
  number, complement and neighborhood that are present and non-empty, in that order,
  and \<open>reference\<close> is the empty string when the address has no reference. The order
  factory takes \<open>shipping_address\<close> and \<open>shipping_address_reference\<close> from them. The
  address Main, 42, (empty), Centro gives \<open>Main 42 Centro\<close>.
\<close>

theorem format_ws_address_data_fields:
  "(format_ws_address_data order = Inr a \<longrightarrow>
      (\<exists>sd sel kvs.
         getitem order ''shippingData'' = Inr sd \<and>
         getitem sd ''selectedAddresses'' = Inr sel \<and>
         getitem0 sel = Inr (JObj kvs) \<and>
         info a =
           join_strs '' '' (present_nonempty kvs [''street'', ''number'', ''complement'', ''neighborhood'']) \<and>
         (map_of kvs ''reference'' = None \<longrightarrow> reference a = JStr []))) \<and>
   (make_order_defaults order = Inr d \<longrightarrow>
      (\<exists>a'. format_ws_address_data order = Inr a' \<and> d_shipping_address d = info a' \<and>
            d_shipping_address_reference d = reference a')) \<and>
   format_ws_address_data
     (JObj [(''shippingData'', JObj [(''selectedAddresses'',
        JArr [JObj [(''street'', JStr ''Main''), (''number'', JStr ''42''),
                    (''complement'', JStr []), (''neighborhood'', JStr ''Centro'')]])])]) =
     Inr \<lparr>city = JNull, info = ''Main 42 Centro'', reference = JStr [], postal_code = JNull\<rparr>"
proof (intro conjI impI)
  assume ok: "format_ws_address_data order = Inr a"
  then obtain sd where sd: "getitem order ''shippingData'' = Inr sd"
    by (cases "getitem order ''shippingData''") (auto simp: format_ws_address_data_def and_then_def)
  with ok obtain sel where sel: "getitem sd ''selectedAddresses'' = Inr sel"
    by (cases "getitem sd ''selectedAddresses''") (auto simp: format_ws_address_data_def and_then_def)
  with ok sd obtain ad where ad: "getitem0 sel = Inr ad"
    by (cases "getitem0 sel") (auto simp: format_ws_address_data_def and_then_def)
  with ok sd sel obtain parts where
    parts: "address_parts ad [''street'', ''number'', ''complement'', ''neighborhood''] = Inr parts"
    by (cases "address_parts ad [''street'', ''number'', ''complement'', ''neighborhood'']")
       (auto simp: format_ws_address_data_def and_then_def)
  then obtain kvs where kvs: "ad = JObj kvs"
    using address_parts_dict by blast
  from ok sd sel ad parts obtain ss where ss: "map_err as_str parts = Inr ss"
    by (cases "map_err as_str parts") (auto simp: format_ws_address_data_def and_then_def str_join_def)
  have ss_eq: "ss = present_nonempty kvs [''street'', ''number'', ''complement'', ''neighborhood'']"
    using address_parts_strings parts ss kvs by blast
  from ok sd sel ad parts ss kvs
  have a: "a = \<lparr>city = (case map_of kvs ''city'' of None \<Rightarrow> JNull | Some v \<Rightarrow> v),
                 info = join_strs '' '' ss,
                 reference = (let r = (case map_of kvs ''reference'' of None \<Rightarrow> JNull | Some v \<Rightarrow> v)
                              in if truthy r then r else JStr []),
                 postal_code = (case map_of kvs ''postalCode'' of None \<Rightarrow> JNull | Some v \<Rightarrow> v)\<rparr>"
    by (simp add: format_ws_address_data_def and_then_def str_join_def dict_get_def Let_def)
  show "\<exists>sd sel kvs.
         getitem order ''shippingData'' = Inr sd \<and>
         getitem sd ''selectedAddresses'' = Inr sel \<and>
         getitem0 sel = Inr (JObj kvs) \<and>
         info a =
           join_strs '' '' (present_nonempty kvs [''street'', ''number'', ''complement'', ''neighborhood'']) \<and>
         (map_of kvs ''reference'' = None \<longrightarrow> reference a = JStr [])"
    using sd sel ad kvs ss_eq a by (intro exI[of _ sd] exI[of _ sel] exI[of _ kvs]) simp
next
  assume "make_order_defaults order = Inr d"
  then show "\<exists>a'. format_ws_address_data order = Inr a' \<and> d_shipping_address d = info a' \<and>
            d_shipping_address_reference d = reference a'"
    unfolding make_order_defaults_def and_then_def
    by (cases "format_ws_address_data order") (auto split: sum.splits)
next
  show "format_ws_address_data
     (JObj [(''shippingData'', JObj [(''selectedAddresses'',
        JArr [JObj [(''street'', JStr ''Main''), (''number'', JStr ''42''),
                    (''complement'', JStr []), (''neighborhood'', JStr ''Centro'')]])])]) =
     Inr \<lparr>city = JNull, info = ''Main 42 Centro'', reference = JStr [], postal_code = JNull\<rparr>"
    by (simp add: format_ws_address_data_def and_then_def getitem_def getitem0_def dict_get_def
        str_join_def as_str_def)
qed

theorem format_ws_address_data_fields_witness:
  "format_ws_address_data (sample_raw_order ''v1'' []) =
     Inr \<lparr>city = JStr ''Bogota'', info = ''Main 42 Centro'', reference = JStr [],
          postal_code = JStr ''110111''\<rparr> \<and>
   (\<exists>d. make_order_defaults (sample_raw_order ''v1'' []) = Inr d \<and>
        d_shipping_address d = ''Main 42 Centro'' \<and> d_shipping_address_reference d = JStr []) \<and>
   (\<exists>kvs. getitem0 (JArr [sample_address]) = Inr (JObj kvs) \<and> map_of kvs ''reference'' = None \<and>
      join_strs '' '' (present_nonempty kvs [''street'', ''number'', ''complement'', ''neighborhood'']) =
        ''Main 42 Centro'')"
  using format_ws_address_data_fields
    [of "sample_raw_order ''v1'' []"
        "\<lparr>city = JStr ''Bogota'', info = ''Main 42 Centro'', reference = JStr [],
          postal_code = JStr ''110111''\<rparr>"
        "\<lparr>d_order_created_at =
            \<lparr>year = 2021, month = 3, day = 4, hour = 10, minute = 15, second = 30, microsecond = 0\<rparr>,
          d_shipping_stimate_date =
            \<lparr>year = 2021, month = 3, day = 8, hour = 9, minute = 0, second = 0, microsecond = 0\<rparr>,
          d_buyer_fullname = ''Ana Diaz'',
          d_buyer_document = JStr ''52000111'',
          d_buyer_phone = JStr ''+573001112233'',
          d_buyer_email = JStr ''ana@example.com'',
          d_shipping_address = ''Main 42 Centro'',
          d_shipping_address_city = JStr ''Bogota'',
          d_shipping_address_reference = JStr [],
          d_shipping_address_zip = JStr ''110111'',
          d_order_number = JStr ''v1'',
          d_route_text_code = [],
          d_from_api = sample_raw_order ''v1'' []\<rparr>"]
  by (simp add: sample_address_data sample_order_defaults getitem0_def sample_address_def present_nonempty_def)

subsection \<open>Fetching\<close>

lemma dict_set_twice: "dict_set k v (dict_set k w d) = dict_set k v d"
  by (induction d) auto

lemma map_err_all_ok: "\<forall>x\<in>set xs. f x = Inr (g x) \<Longrightarrow> map_err f xs = Inr (map g xs)"
  by (induction xs) (auto simp: and_then_def)

lemma map_err_first_error:
  "i < length xs \<Longrightarrow> f (xs ! i) = Inl e \<Longrightarrow> \<forall>j<i. \<exists>y. f (xs ! j) = Inr y \<Longrightarrow>
   map_err f xs = Inl e"
proof (induction xs arbitrary: i)
  case Nil
  then show ?case by simp
next
  case (Cons x xs)
  show ?case
  proof (cases i)
    case 0
    with Cons.prems show ?thesis by (simp add: and_then_def)
  next
    case (Suc k)
    with Cons.prems have "\<exists>y. f x = Inr y" by auto
    then obtain y where y: "f x = Inr y" ..
    have "map_err f xs = Inl e"
    proof (rule Cons.IH[of k])
      show "k < length xs" using Cons.prems Suc by simp
      show "f (xs ! k) = Inl e" using Cons.prems Suc by simp
      show "\<forall>j<k. \<exists>y. f (xs ! j) = Inr y"
      proof (intro allI impI)
        fix j assume "j < k"
        then have "Suc j < i" using Suc by simp
        with Cons.prems(3) have "\<exists>y. f ((x # xs) ! Suc j) = Inr y" by blast
        then show "\<exists>y. f (xs ! j) = Inr y" by simp
      qed
    qed
    with y show ?thesis by (simp add: and_then_def)
  qed
qed

text \<open>One call of the fetcher on a well-formed page.\<close>

lemma get_orders_step:
  assumes "list_endpoint a (dict_set ''page'' (JInt page)
             (case q of None \<Rightarrow> default_querystring | Some v \<Rightarrow> v)) = Inr r"
    and "getitem r ''list'' = Inr l" and "py_iter l = Inr ss"
    and "map_err (get_order_detail a) ss = Inr orders"
    and "getitem r ''paging'' = Inr pg"
    and "getitem pg ''currentPage'' = Inr (JInt c)"
    and "getitem pg ''pages'' = Inr (JInt t)"
  shows "get_orders (Suc depth) a q page =
           (if c < t
            then and_then (get_orders depth a
                   (Some (dict_set ''page'' (JInt page)
                      (case q of None \<Rightarrow> default_querystring | Some v \<Rightarrow> v))) (c + 1))
                   (\<lambda>rest. Inr (orders @ rest))
            else Inr orders)"
  using assms by (simp add: Let_def and_then_def py_lt_def as_int_def py_add1_def)


lemma map_err_ok_ex: "\<forall>x\<in>set xs. \<exists>y. f x = Inr y \<Longrightarrow> \<exists>ys. map_err f xs = Inr ys"
proof (induction xs)
  case Nil
  then show ?case by simp
next
  case (Cons x xs)
  then obtain y ys where "f x = Inr y" "map_err f xs = Inr ys" by auto
  then show ?case by (simp add: and_then_def)
qed

lemma get_orders_from_page:
  fixes N p :: int
  assumes pages: "\<forall>k\<in>{1..N}. \<exists>r pg.
        list_endpoint a (dict_set ''page'' (JInt k) params) = Inr r \<and>
        getitem r ''list'' = Inr (JArr (summaries k)) \<and>
        getitem r ''paging'' = Inr pg \<and>
        getitem pg ''currentPage'' = Inr (JInt k) \<and>
        getitem pg ''pages'' = Inr (JInt N)"
    and details: "\<forall>k\<in>{1..N}. \<forall>s\<in>set (summaries k). get_order_detail a s = Inr (detail s)"
  shows "1 \<le> p \<Longrightarrow> p \<le> N \<Longrightarrow> N - p < int depth \<Longrightarrow>
         (\<forall>v. dict_set ''page'' v (case q of None \<Rightarrow> default_querystring | Some u \<Rightarrow> u) =
              dict_set ''page'' v params) \<Longrightarrow>
         get_orders depth a q p = Inr (concat (map (\<lambda>k. map detail (summaries k)) [p..N]))"
proof (induction depth arbitrary: p q)
  case 0
  then show ?case by simp
next
  case (Suc d)
  let ?qs = "dict_set ''page'' (JInt p) (case q of None \<Rightarrow> default_querystring | Some u \<Rightarrow> u)"
  have qs: "?qs = dict_set ''page'' (JInt p) params" using Suc.prems(4) by blast
  from pages Suc.prems(1,2) obtain r pg where
    r: "list_endpoint a (dict_set ''page'' (JInt p) params) = Inr r"
       "getitem r ''list'' = Inr (JArr (summaries p))"
       "getitem r ''paging'' = Inr pg"
       "getitem pg ''currentPage'' = Inr (JInt p)"
       "getitem pg ''pages'' = Inr (JInt N)"
    by (meson atLeastAtMost_iff)
  have "\<forall>s\<in>set (summaries p). get_order_detail a s = Inr (detail s)"
    using details Suc.prems(1,2) by simp
  then have det: "map_err (get_order_detail a) (summaries p) = Inr (map detail (summaries p))"
    using map_err_all_ok[of "summaries p" "get_order_detail a" detail] by blast
  have step: "get_orders (Suc d) a q p =
      (if p < N then and_then (get_orders d a (Some ?qs) (p + 1))
                       (\<lambda>rest. Inr (map detail (summaries p) @ rest))
       else Inr (map detail (summaries p)))"
    by (rule get_orders_step[where r = r and l = "JArr (summaries p)" and pg = pg
          and ss = "summaries p"])
       (simp_all add: qs r py_iter_def det)
  show ?case
  proof (cases "p < N")
    case True
    have "get_orders d a (Some ?qs) (p + 1) =
            Inr (concat (map (\<lambda>k. map detail (summaries k)) [p + 1..N]))"
    proof (rule Suc.IH)
      show "1 \<le> p + 1" using Suc.prems by simp
      show "p + 1 \<le> N" using True by simp
      show "N - (p + 1) < int d" using Suc.prems by simp
      show "\<forall>v. dict_set ''page'' v (case Some ?qs of None \<Rightarrow> default_querystring | Some u \<Rightarrow> u) =
                dict_set ''page'' v params"
        by (simp add: qs dict_set_twice)
    qed
    moreover have "[p..N] = p # [p + 1..N]" using True by (simp add: upto_rec1)
    ultimately show ?thesis using True step by (simp add: and_then_def)
  next
    case False
    with Suc.prems have "p = N" by simp
    then show ?thesis using step by simp
  qed
qed

text \<open>
  C3. Let the API answer the list request of each page \<open>k\<close> from 1 to \<open>N\<close> with the
  summaries of that page, \<open>currentPage = k\<close> and \<open>pages = N\<close>, and let every detail
  request succeed. Given at least \<open>N\<close> levels of recursion, \<open>get_orders\<close> started
  at page 1 fetches the detail of each summary, goes on to the next page while
  \<open>currentPage < pages\<close>, stops at page \<open>N\<close> and returns the details of all pages,
  in page order and, within a page, in list order.
\<close>

theorem get_orders_all_pages:
  fixes N :: int
  assumes "1 \<le> N" and "N \<le> int depth"
    and "params = (case q of None \<Rightarrow> default_querystring | Some u \<Rightarrow> u)"
    and "\<forall>k\<in>{1..N}. \<exists>r pg.
        list_endpoint a (dict_set ''page'' (JInt k) params) = Inr r \<and>
        getitem r ''list'' = Inr (JArr (summaries k)) \<and>
        getitem r ''paging'' = Inr pg \<and>
        getitem pg ''currentPage'' = Inr (JInt k) \<and>
        getitem pg ''pages'' = Inr (JInt N)"
    and "\<forall>k\<in>{1..N}. \<forall>s\<in>set (summaries k). \<exists>oid.
        getitem s ''orderId'' = Inr (JStr oid) \<and> order_endpoint a oid = Inr (detail s)"
  shows "get_orders depth a q 1 = Inr (concat (map (\<lambda>k. map detail (summaries k)) [1..N]))"
proof (rule get_orders_from_page[where params = params and N = N])
  show "\<forall>k\<in>{1..N}. \<forall>s\<in>set (summaries k). get_order_detail a s = Inr (detail s)"
    using assms(5) by (fastforce simp: get_order_detail_def and_then_def as_str_def)
qed (use assms in simp_all)


lemma get_orders_page_fails:
  assumes "list_endpoint a (dict_set ''page'' (JInt page)
             (case q of None \<Rightarrow> default_querystring | Some v \<Rightarrow> v)) = Inl e \<or>
           (\<exists>r. list_endpoint a (dict_set ''page'' (JInt page)
                   (case q of None \<Rightarrow> default_querystring | Some v \<Rightarrow> v)) = Inr r \<and>
                (getitem r ''list'' = Inl e \<or>
                 (\<exists>ss. getitem r ''list'' = Inr (JArr ss) \<and>
                    (map_err (get_order_detail a) ss = Inl e \<or>
                     (\<exists>orders. map_err (get_order_detail a) ss = Inr orders \<and>
                        (getitem r ''paging'' = Inl e \<or>
                         (\<exists>pg. getitem r ''paging'' = Inr pg \<and>
                            (getitem pg ''currentPage'' = Inl e \<or>
                             (\<exists>c. getitem pg ''currentPage'' = Inr c \<and>
                                  getitem pg ''pages'' = Inl e)))))))))"
  shows "get_orders (Suc depth) a q page = Inl e"
  using assms by (auto simp: Let_def and_then_def py_iter_def)

lemma get_orders_fails_from_page:
  fixes N p k :: int
  assumes pages: "\<forall>j\<in>{1..<k}. \<exists>r pg.
        list_endpoint a (dict_set ''page'' (JInt j) params) = Inr r \<and>
        getitem r ''list'' = Inr (JArr (summaries j)) \<and>
        getitem r ''paging'' = Inr pg \<and>
        getitem pg ''currentPage'' = Inr (JInt j) \<and>
        getitem pg ''pages'' = Inr (JInt N)"
    and details: "\<forall>j\<in>{1..<k}. \<forall>s\<in>set (summaries j). \<exists>y. get_order_detail a s = Inr y"
    and "k \<le> N"
    and fails: "\<And>q. (\<forall>v. dict_set ''page'' v (case q of None \<Rightarrow> default_querystring | Some u \<Rightarrow> u) =
              dict_set ''page'' v params) \<Longrightarrow> get_orders (Suc d') a q k = Inl e"
  shows "1 \<le> p \<Longrightarrow> p \<le> k \<Longrightarrow> int depth = k - p + int (Suc d') \<Longrightarrow>
         (\<forall>v. dict_set ''page'' v (case q of None \<Rightarrow> default_querystring | Some u \<Rightarrow> u) =
              dict_set ''page'' v params) \<Longrightarrow>
         get_orders depth a q p = Inl e"
proof (induction depth arbitrary: p q)
  case 0
  then show ?case by simp
next
  case (Suc d)
  show ?case
  proof (cases "p < k")
    case False
    with Suc.prems have "p = k" "d = d'" by simp_all
    then show ?thesis using fails[OF Suc.prems(4)] by simp
  next
    case True
    let ?qs = "dict_set ''page'' (JInt p) (case q of None \<Rightarrow> default_querystring | Some u \<Rightarrow> u)"
    have qs: "?qs = dict_set ''page'' (JInt p) params" using Suc.prems(4) by blast
    from pages Suc.prems(1) True obtain r pg where
      r: "list_endpoint a (dict_set ''page'' (JInt p) params) = Inr r"
         "getitem r ''list'' = Inr (JArr (summaries p))"
         "getitem r ''paging'' = Inr pg"
         "getitem pg ''currentPage'' = Inr (JInt p)"
         "getitem pg ''pages'' = Inr (JInt N)"
      by (meson atLeastLessThan_iff)
    have "\<forall>s\<in>set (summaries p). \<exists>y. get_order_detail a s = Inr y"
      using details Suc.prems(1) True by simp
    then obtain orders where det: "map_err (get_order_detail a) (summaries p) = Inr orders"
      using map_err_ok_ex by blast
    have step: "get_orders (Suc d) a q p =
        (if p < N then and_then (get_orders d a (Some ?qs) (p + 1)) (\<lambda>rest. Inr (orders @ rest))
         else Inr orders)"
      by (rule get_orders_step[where r = r and l = "JArr (summaries p)" and pg = pg
            and ss = "summaries p"])
         (simp_all add: qs r py_iter_def det)
    have "get_orders d a (Some ?qs) (p + 1) = Inl e"
    proof (rule Suc.IH)
      show "1 \<le> p + 1" using Suc.prems by simp
      show "p + 1 \<le> k" using True by simp
      show "int d = k - (p + 1) + int (Suc d')" using Suc.prems by simp
      show "\<forall>v. dict_set ''page'' v (case Some ?qs of None \<Rightarrow> default_querystring | Some u \<Rightarrow> u) =
                dict_set ''page'' v params"
        by (simp add: qs dict_set_twice)
    qed
    moreover have "p < N" using True assms(3) by simp
    ultimately show ?thesis using step by (simp add: and_then_def)
  qed
qed

text \<open>
  C4. Let pages 1 to \<open>k - 1\<close> be fetched without error, and let page \<open>k\<close> fail
  with \<open>e\<close>: in its list request (transport, or a body that is not JSON), in a
  response without a \<open>list\<close>, in the first failing detail request, or in a
  malformed \<open>paging\<close>. Then the whole call returns \<open>e\<close> and none of the orders
  fetched before.
\<close>

theorem get_orders_all_or_nothing:
  fixes N k :: int
  assumes "1 \<le> k" and "k \<le> N" and "k \<le> int depth"
    and "params = (case q of None \<Rightarrow> default_querystring | Some u \<Rightarrow> u)"
    and "\<forall>j\<in>{1..<k}. \<exists>r pg.
        list_endpoint a (dict_set ''page'' (JInt j) params) = Inr r \<and>
        getitem r ''list'' = Inr (JArr (summaries j)) \<and>
        getitem r ''paging'' = Inr pg \<and>
        getitem pg ''currentPage'' = Inr (JInt j) \<and>
        getitem pg ''pages'' = Inr (JInt N)"
    and "\<forall>j\<in>{1..<k}. \<forall>s\<in>set (summaries j). \<exists>y. get_order_detail a s = Inr y"
    and "list_endpoint a (dict_set ''page'' (JInt k) params) = Inl e \<or>
         (\<exists>r. list_endpoint a (dict_set ''page'' (JInt k) params) = Inr r \<and>
              (getitem r ''list'' = Inl e \<or>
               (\<exists>ss i. getitem r ''list'' = Inr (JArr ss) \<and> i < length ss \<and>
                   get_order_detail a (ss ! i) = Inl e \<and>
                   (\<forall>j<i. \<exists>y. get_order_detail a (ss ! j) = Inr y)) \<or>
               (\<exists>ss. getitem r ''list'' = Inr (JArr ss) \<and>
                   (\<forall>s\<in>set ss. \<exists>y. get_order_detail a s = Inr y) \<and>
                   (getitem r ''paging'' = Inl e \<or>
                    (\<exists>pg. getitem r ''paging'' = Inr pg \<and>
                       (getitem pg ''currentPage'' = Inl e \<or>
                        (\<exists>c. getitem pg ''currentPage'' = Inr c \<and>
                             getitem pg ''pages'' = Inl e)))))))"
  shows "get_orders depth a q 1 = Inl e"
proof -
  define d' where "d' = nat (int depth - k)"
  have d': "int depth = k - 1 + int (Suc d')"
    using assms(1,3) by (simp add: d'_def)
  have fails: "get_orders (Suc d') a q' k = Inl e"
    if q': "\<forall>v. dict_set ''page'' v (case q' of None \<Rightarrow> default_querystring | Some u \<Rightarrow> u) =
              dict_set ''page'' v params" for q'
  proof (rule get_orders_page_fails)
    have qs: "dict_set ''page'' (JInt k) (case q' of None \<Rightarrow> default_querystring | Some u \<Rightarrow> u) =
              dict_set ''page'' (JInt k) params"
      using q' by blast
    let ?L = "list_endpoint a (dict_set ''page'' (JInt k) params)"
    from assms(7) consider
        (transport) "?L = Inl e"
      | (no_list) r where "?L = Inr r" "getitem r ''list'' = Inl e"
      | (detail) r ss i where "?L = Inr r" "getitem r ''list'' = Inr (JArr ss)" "i < length ss"
          "get_order_detail a (ss ! i) = Inl e" "\<forall>j<i. \<exists>y. get_order_detail a (ss ! j) = Inr y"
      | (paging) r ss where "?L = Inr r" "getitem r ''list'' = Inr (JArr ss)"
          "\<forall>s\<in>set ss. \<exists>y. get_order_detail a s = Inr y"
          "getitem r ''paging'' = Inl e \<or>
             (\<exists>pg. getitem r ''paging'' = Inr pg \<and>
                (getitem pg ''currentPage'' = Inl e \<or>
                 (\<exists>c. getitem pg ''currentPage'' = Inr c \<and> getitem pg ''pages'' = Inl e)))"
      by blast
    then show "list_endpoint a (dict_set ''page'' (JInt k)
             (case q' of None \<Rightarrow> default_querystring | Some v \<Rightarrow> v)) = Inl e \<or>
           (\<exists>r. list_endpoint a (dict_set ''page'' (JInt k)
                   (case q' of None \<Rightarrow> default_querystring | Some v \<Rightarrow> v)) = Inr r \<and>
                (getitem r ''list'' = Inl e \<or>
                 (\<exists>ss. getitem r ''list'' = Inr (JArr ss) \<and>
                    (map_err (get_order_detail a) ss = Inl e \<or>
                     (\<exists>orders. map_err (get_order_detail a) ss = Inr orders \<and>
                        (getitem r ''paging'' = Inl e \<or>
                         (\<exists>pg. getitem r ''paging'' = Inr pg \<and>
                            (getitem pg ''currentPage'' = Inl e \<or>
                             (\<exists>c. getitem pg ''currentPage'' = Inr c \<and>
                                  getitem pg ''pages'' = Inl e)))))))))"
    proof cases
      case transport
      then show ?thesis by (simp add: qs)
    next
      case no_list
      then show ?thesis by (simp add: qs)
    next
      case detail
      then have "map_err (get_order_detail a) ss = Inl e"
        by (intro map_err_first_error[of i])
      with detail(1,2) show ?thesis by (simp add: qs)
    next
      case paging
      from paging(3) obtain orders where "map_err (get_order_detail a) ss = Inr orders"
        using map_err_ok_ex by blast
      with paging(1,2,4) show ?thesis by (simp add: qs)
    qed
  qed
  show ?thesis
    by (rule get_orders_fails_from_page[where params = params and N = N and k = k and d' = d'
          and summaries = summaries])
       (use assms d' fails in simp_all)
qed


lemma fake_api_pages:
  "\<forall>k\<in>{1..int (length pages)}. \<exists>r pg.
        list_endpoint (fake_api pages bad) (dict_set ''page'' (JInt k) default_querystring) = Inr r \<and>
        getitem r ''list'' = Inr (JArr (map order_summary (pages ! nat (k - 1)))) \<and>
        getitem r ''paging'' = Inr pg \<and>
        getitem pg ''currentPage'' = Inr (JInt k) \<and>
        getitem pg ''pages'' = Inr (JInt (int (length pages)))"
  by (simp add: fake_api_def default_querystring_def page_response_def getitem_def)

lemma fake_api_details:
  "oid \<notin> set bad \<Longrightarrow>
   get_order_detail (fake_api pages bad) (order_summary oid) = Inr (sample_raw_order oid [])"
  by (simp add: get_order_detail_def fake_api_def order_summary_def getitem_def as_str_def and_then_def)

lemma fake_api_bad_detail:
  "oid \<in> set bad \<Longrightarrow>
   get_order_detail (fake_api pages bad) (order_summary oid) = Inl RequestException"
  by (simp add: get_order_detail_def fake_api_def order_summary_def getitem_def as_str_def and_then_def)

theorem get_orders_all_pages_witness:
  "(1::int) \<le> 3 \<and> (3::int) \<le> int 3 \<and>
   get_orders 3 (fake_api [[''a'', ''b''], [''c''], [''d'', ''e'']] []) None 1 =
     Inr (map (\<lambda>oid. sample_raw_order oid []) [''a'', ''b'', ''c'', ''d'', ''e''])"
proof -
  let ?P = "[[''a'', ''b''], [''c''], [''d'', ''e'']]"
  let ?a = "fake_api ?P []"
  let ?summaries = "\<lambda>k. map order_summary (?P ! nat (k - 1))"
  let ?detail = "\<lambda>s. case s of JObj [(k, JStr oid)] \<Rightarrow> sample_raw_order oid [] | _ \<Rightarrow> JNull"
  have h1: "(1::int) \<le> 3" by simp
  have h2: "(3::int) \<le> int 3" by simp
  have h3: "default_querystring = (case None of None \<Rightarrow> default_querystring | Some u \<Rightarrow> u)"
    by simp
  have h4: "\<forall>k\<in>{1..3}. \<exists>r pg.
        list_endpoint ?a (dict_set ''page'' (JInt k) default_querystring) = Inr r \<and>
        getitem r ''list'' = Inr (JArr (?summaries k)) \<and>
        getitem r ''paging'' = Inr pg \<and>
        getitem pg ''currentPage'' = Inr (JInt k) \<and>
        getitem pg ''pages'' = Inr (JInt 3)"
    using fake_api_pages[of ?P "[]"] by simp
  have h5: "\<forall>k\<in>{1..3}. \<forall>s\<in>set (?summaries k). \<exists>oid.
        getitem s ''orderId'' = Inr (JStr oid) \<and> order_endpoint ?a oid = Inr (?detail s)"
    by (auto simp: order_summary_def getitem_def fake_api_def)
  have "[1..3::int] = [1, 2, 3]" by (simp add: upto_rec1)
  moreover have "nat (3 - 1) = 2" "nat (2 - 1) = 1" by simp_all
  ultimately show ?thesis
    using get_orders_all_pages[OF h1 h2 h3 h4 h5] by (simp add: order_summary_def)
qed

theorem get_orders_all_or_nothing_witness:
  "(1::int) \<le> 3 \<and> (3::int) \<le> int 3 \<and>
   get_order_detail (fake_api [[''a'', ''b''], [''c''], [''d'', ''e'']] [''e'']) (order_summary ''e'') =
     Inl RequestException \<and>
   get_orders 3 (fake_api [[''a'', ''b''], [''c''], [''d'', ''e'']] [''e'']) None 1 =
     Inl RequestException"
proof -
  let ?P = "[[''a'', ''b''], [''c''], [''d'', ''e'']]"
  let ?a = "fake_api ?P [''e'']"
  let ?summaries = "\<lambda>k. map order_summary (?P ! nat (k - 1))"
  have h1: "(1::int) \<le> 3" by simp
  have h2: "(3::int) \<le> 3" by simp
  have h3: "(3::int) \<le> int 3" by simp
  have h4: "default_querystring = (case None of None \<Rightarrow> default_querystring | Some u \<Rightarrow> u)"
    by simp
  have h5: "\<forall>j\<in>{1..<3}. \<exists>r pg.
        list_endpoint ?a (dict_set ''page'' (JInt j) default_querystring) = Inr r \<and>
        getitem r ''list'' = Inr (JArr (?summaries j)) \<and>
        getitem r ''paging'' = Inr pg \<and>
        getitem pg ''currentPage'' = Inr (JInt j) \<and>
        getitem pg ''pages'' = Inr (JInt 3)"
    using fake_api_pages[of ?P "[''e'']"] by simp
  have two: "j = 1 \<or> j = 2" if "j \<in> {1..<3}" for j :: int using that by auto
  have h6: "\<forall>j\<in>{1..<3}. \<forall>s\<in>set (?summaries j). \<exists>y. get_order_detail ?a s = Inr y"
    by (auto dest!: two simp: fake_api_details)
  have d: "get_order_detail ?a (order_summary ''d'') = Inr (sample_raw_order ''d'' [])"
    by (simp add: fake_api_details)
  have e: "get_order_detail ?a (order_summary ''e'') = Inl RequestException"
    by (simp add: fake_api_bad_detail)
  have h7: "list_endpoint ?a (dict_set ''page'' (JInt 3) default_querystring) = Inl RequestException \<or>
         (\<exists>r. list_endpoint ?a (dict_set ''page'' (JInt 3) default_querystring) = Inr r \<and>
              (getitem r ''list'' = Inl RequestException \<or>
               (\<exists>ss i. getitem r ''list'' = Inr (JArr ss) \<and> i < length ss \<and>
                   get_order_detail ?a (ss ! i) = Inl RequestException \<and>
                   (\<forall>j<i. \<exists>y. get_order_detail ?a (ss ! j) = Inr y)) \<or>
               (\<exists>ss. getitem r ''list'' = Inr (JArr ss) \<and>
                   (\<forall>s\<in>set ss. \<exists>y. get_order_detail ?a s = Inr y) \<and>
                   (getitem r ''paging'' = Inl RequestException \<or>
                    (\<exists>pg. getitem r ''paging'' = Inr pg \<and>
                       (getitem pg ''currentPage'' = Inl RequestException \<or>
                        (\<exists>c. getitem pg ''currentPage'' = Inr c \<and>
                             getitem pg ''pages'' = Inl RequestException)))))))"
  proof -
    let ?ss = "map order_summary [''d'', ''e'']"
    let ?r = "page_response ?ss 3 3"
    have L: "list_endpoint ?a (dict_set ''page'' (JInt 3) default_querystring) = Inr ?r"
      by (simp add: fake_api_def default_querystring_def)
    have G: "getitem ?r ''list'' = Inr (JArr ?ss)"
      by (simp add: page_response_def getitem_def)
    have D: "Suc 0 < length ?ss \<and> get_order_detail ?a (?ss ! Suc 0) = Inl RequestException \<and>
             (\<forall>j<Suc 0. \<exists>y. get_order_detail ?a (?ss ! j) = Inr y)"
      using d e by simp
    have "\<exists>ss i. getitem ?r ''list'' = Inr (JArr ss) \<and> i < length ss \<and>
             get_order_detail ?a (ss ! i) = Inl RequestException \<and>
             (\<forall>j<i. \<exists>y. get_order_detail ?a (ss ! j) = Inr y)"
      using G D by blast
    with L show ?thesis by blast
  qed
  from get_orders_all_or_nothing[OF h1 h2 h3 h4 h5 h6 h7] e show ?thesis by simp
qed

subsection \<open>The default time window\<close>

lemma get_order_detail_cong:
  "order_endpoint a = order_endpoint b \<Longrightarrow> get_order_detail a = get_order_detail b"
  by (intro ext) (simp add: get_order_detail_def)

lemma get_orders_default_filter_only:
  assumes oe: "order_endpoint a = order_endpoint b"
    and le: "\<forall>p. list_endpoint a
                 [(''f_creationDate'',
                   JStr ''creationDate:[2016-01-01T02:00:00.000Z TO 2021-01-01T01:59:59.999Z]''),
                  (''page'', JInt p)] =
               list_endpoint b
                 [(''f_creationDate'',
                   JStr ''creationDate:[2016-01-01T02:00:00.000Z TO 2021-01-01T01:59:59.999Z]''),
                  (''page'', JInt p)]"
  shows "q = None \<or> (\<exists>p. q = Some (dict_set ''page'' (JInt p) default_querystring)) \<Longrightarrow>
         get_orders depth a q page = get_orders depth b q page"
proof (induction depth arbitrary: q page)
  case 0
  then show ?case by simp
next
  case (Suc d)
  let ?qs = "dict_set ''page'' (JInt page) default_querystring"
  have qs: "dict_set ''page'' (JInt page) (case q of None \<Rightarrow> default_querystring | Some v \<Rightarrow> v) = ?qs"
    using Suc.prems by (auto simp: dict_set_twice)
  have l: "list_endpoint a ?qs = list_endpoint b ?qs"
    using le by (simp add: default_querystring_def)
  have ih: "get_orders d a (Some ?qs) n = get_orders d b (Some ?qs) n" for n
    by (rule Suc.IH) blast
  show ?case
    by (simp add: Let_def qs l ih get_order_detail_cong[OF oe] cong: if_cong)
qed

text \<open>
  C2 (as amended). Called without a querystring, \<open>get_orders\<close> asks the list
  endpoint only with the fixed filter
  \<open>creationDate:[2016-01-01T02:00:00.000Z TO 2021-01-01T01:59:59.999Z]\<close> and a page:
  two APIs that agree on these requests and on the order endpoint give the same
  result. \<open>get_orders_filter_hours_range\<close>, which the fetch does not call, renders
  \<open>creationDate:[<from> TO <to>]\<close> from the two times it is given.
\<close>

theorem get_orders_default_filter:
  "((order_endpoint a = order_endpoint b \<and>
     (\<forall>p. list_endpoint a
            [(''f_creationDate'',
              JStr ''creationDate:[2016-01-01T02:00:00.000Z TO 2021-01-01T01:59:59.999Z]''),
             (''page'', JInt p)] =
          list_endpoint b
            [(''f_creationDate'',
              JStr ''creationDate:[2016-01-01T02:00:00.000Z TO 2021-01-01T01:59:59.999Z]''),
             (''page'', JInt p)])) \<longrightarrow>
    get_orders depth a None page = get_orders depth b None page) \<and>
   get_orders_filter_hours_range now1 now2 (Some from_time) (Some to_time) =
     Inr (''creationDate:['' @ strftime_iso_us from_time @ '' TO '' @ strftime_iso_us to_time @ '']'')"
proof (intro conjI impI)
  assume "order_endpoint a = order_endpoint b \<and>
     (\<forall>p. list_endpoint a
            [(''f_creationDate'',
              JStr ''creationDate:[2016-01-01T02:00:00.000Z TO 2021-01-01T01:59:59.999Z]''),
             (''page'', JInt p)] =
          list_endpoint b
            [(''f_creationDate'',
              JStr ''creationDate:[2016-01-01T02:00:00.000Z TO 2021-01-01T01:59:59.999Z]''),
             (''page'', JInt p)])"
  then show "get_orders depth a None page = get_orders depth b None page"
    using get_orders_default_filter_only[of a b None depth page] by blast
next
  show "get_orders_filter_hours_range now1 now2 (Some from_time) (Some to_time) =
     Inr (''creationDate:['' @ strftime_iso_us from_time @ '' TO '' @ strftime_iso_us to_time @ '']'')"
    by (simp add: get_orders_filter_hours_range_def and_then_def)
qed

lemmas show_defs = zpad_def digit_chr_def str_int_def strftime_iso_us_def strftime_dmY_def

lemma probe_default:
  "get_orders 1 probe_api None 1 =
     Inr [JStr ''creationDate:[2016-01-01T02:00:00.000Z TO 2021-01-01T01:59:59.999Z]'']"
  by (simp add: probe_api_def default_querystring_def page_response_def json_defs
      get_order_detail_def Let_def)

lemma sample_now_iso: "strftime_iso_us sample_now = ''2021-03-04T10:15:30.000000Z''"
  by code_simp

lemma sample_hour_before:
  "minus_one_hour sample_now = Inr (sample_now\<lparr>hour := 9\<rparr>)"
  by (simp add: minus_one_hour_def sample_now_def)

lemma sample_hour_before_iso:
  "strftime_iso_us (sample_now\<lparr>hour := 9\<rparr>) = ''2021-03-04T09:15:30.000000Z''"
  by code_simp

text \<open>
  At 2021-03-04 10:15:30 the filter of a fetch without querystring is not the last
  hour, and the defaults of \<open>get_orders_filter_hours_range\<close> put the current time
  first and the time an hour before it last.
\<close>

theorem get_orders_last_hour_counterexample:
  "minus_one_hour sample_now = Inr (sample_now\<lparr>hour := 9\<rparr>) \<and>
   get_orders 1 probe_api None 1 \<noteq>
     Inr [JStr (''creationDate:['' @ strftime_iso_us (sample_now\<lparr>hour := 9\<rparr>) @ '' TO '' @
                strftime_iso_us sample_now @ '']'')] \<and>
   get_orders 1 probe_api None 1 =
     Inr [JStr ''creationDate:[2016-01-01T02:00:00.000Z TO 2021-01-01T01:59:59.999Z]''] \<and>
   get_orders_filter_hours_range sample_now sample_now None None =
     Inr ''creationDate:[2021-03-04T10:15:30.000000Z TO 2021-03-04T09:15:30.000000Z]''"
  unfolding probe_default get_orders_filter_hours_range_def sample_hour_before and_then_def
    sample_now_iso sample_hour_before_iso
  by (simp add: sample_now_iso sample_hour_before_iso)

theorem get_orders_default_filter_witness:
  "order_endpoint probe_api =
     order_endpoint (strict_probe_api
       ''creationDate:[2016-01-01T02:00:00.000Z TO 2021-01-01T01:59:59.999Z]'') \<and>
   get_orders 1 probe_api None 1 =
     get_orders 1 (strict_probe_api
       ''creationDate:[2016-01-01T02:00:00.000Z TO 2021-01-01T01:59:59.999Z]'') None 1 \<and>
   get_orders 1 probe_api None 1 =
     Inr [JStr ''creationDate:[2016-01-01T02:00:00.000Z TO 2021-01-01T01:59:59.999Z]'']"
  using get_orders_default_filter
    [of probe_api
        "strict_probe_api ''creationDate:[2016-01-01T02:00:00.000Z TO 2021-01-01T01:59:59.999Z]''"
        1 1 sample_now sample_now sample_now sample_now]
  unfolding probe_default by (simp add: strict_probe_api_def)

subsection \<open>The order factory\<close>

lemma set_order_defaults_facts:
  assumes "set_order_defaults d r = Inr obj"
  shows "pk obj = pk r"
    and "db_text (d_order_number d) = Inr (order_number obj)"
    and "set_order_defaults d obj = Inr obj"
    and "set_order_defaults d r' = Inr (obj\<lparr>pk := pk r', order_type := order_type r',
           client_code := client_code r', file_type := file_type r',
           company_code := company_code r', currency := currency r',
           warehouse_code := warehouse_code r', sell_type := sell_type r',
           sell_type_code := sell_type_code r', payment_proof := payment_proof r',
           seller_code := seller_code r'\<rparr>)"
  using assms
  by (auto simp: set_order_defaults_def and_then_def split: sum.splits)

lemma lookup_text_of_db_text:
  "db_text v = Inr n \<Longrightarrow> lookup_text v = Inr (Some n)"
  by (auto simp: db_text_def lookup_text_def and_then_def split: if_splits)

lemma map_replace_split:
  assumes "distinct (map f (ys @ x # zs))"
  shows "map (\<lambda>r. if f r = f x then y else r) (ys @ x # zs) = ys @ y # zs"
proof -
  have "\<forall>r\<in>set ys. f r \<noteq> f x" "\<forall>r\<in>set zs. f r \<noteq> f x"
    using assms by (auto simp: image_iff)
  then have "map (\<lambda>r. if f r = f x then y else r) ys = ys"
    and "map (\<lambda>r. if f r = f x then y else r) zs = zs"
    by (simp_all add: map_idI)
  then show ?thesis by simp
qed

lemma filter_single_split:
  assumes "filter P xs = [x]"
  obtains ys zs where "xs = ys @ x # zs" "\<forall>r\<in>set ys. \<not> P r" "\<forall>r\<in>set zs. \<not> P r" "P x"
proof -
  from assms obtain ys zs where "xs = ys @ x # zs" "\<forall>u\<in>set ys. \<not> P u" "P x" "[] = filter P zs"
    unfolding filter_eq_Cons_iff by blast
  moreover from this have "\<forall>r\<in>set zs. \<not> P r" by (simp add: filter_empty_conv[symmetric])
  ultimately show ?thesis using that by blast
qed

text \<open>What one upsert of an order does to a store that satisfies the invariant.\<close>

lemma order_update_or_create_upsert:
  assumes inv: "orders_inv s"
    and run: "order_update_or_create d s = (Inr obj, s')"
  shows "filter (\<lambda>r. order_number r = order_number obj) (order_rows s') = [obj]"
    and "orders_inv s'"
    and "order_update_or_create d s' = (Inr obj, s')"
    and "db_text (d_order_number d) = Inr (order_number obj)"
    and "item_rows s' = item_rows s"
    and "order_number obj \<in> set (map order_number (order_rows s)) \<longrightarrow>
           map pk (order_rows s') = map pk (order_rows s) \<and>
           map order_number (order_rows s') = map order_number (order_rows s)"
    and "order_number obj \<notin> set (map order_number (order_rows s)) \<longrightarrow>
           order_rows s' = order_rows s @ [obj]"
proof -
  from run obtain key where key: "lookup_text (d_order_number d) = Inr key"
    by (cases "lookup_text (d_order_number d)") (auto simp: order_update_or_create_def)
  let ?P = "\<lambda>r. Some (order_number r) = key"
  let ?m = "filter ?P (order_rows s)"
  have cases3: "?m = [] \<or> (\<exists>row. ?m = [row]) \<or> (\<exists>a b c. ?m = a # b # c)"
    by (cases ?m rule: list.exhaust; simp) (metis list.exhaust)
  have notmany: "\<not> (\<exists>a b c. ?m = a # b # c)"
    using run key by (auto simp: order_update_or_create_def split: sum.splits)
  have all_goals: "filter (\<lambda>r. order_number r = order_number obj) (order_rows s') = [obj] \<and>
    orders_inv s' \<and> order_update_or_create d s' = (Inr obj, s') \<and>
    db_text (d_order_number d) = Inr (order_number obj) \<and> item_rows s' = item_rows s \<and>
    (order_number obj \<in> set (map order_number (order_rows s)) \<longrightarrow>
           map pk (order_rows s') = map pk (order_rows s) \<and>
           map order_number (order_rows s') = map order_number (order_rows s)) \<and>
    (order_number obj \<notin> set (map order_number (order_rows s)) \<longrightarrow>
           order_rows s' = order_rows s @ [obj])"
  proof (cases "?m = []")
    case True
    with run key have so: "set_order_defaults d (VtexClientOrder_init (next_order_pk s)) = Inr obj"
      and s': "s' = s\<lparr>order_rows := order_rows s @ [obj], next_order_pk := Suc (next_order_pk s)\<rparr>"
      by (auto simp: order_update_or_create_def split: sum.splits)
    note f = set_order_defaults_facts[OF so]
    have pkobj: "pk obj = next_order_pk s" using f(1) by (simp add: VtexClientOrder_init_def)
    have key': "key = Some (order_number obj)"
      using lookup_text_of_db_text[OF f(2)] key by simp
    have fresh: "\<forall>r\<in>set (order_rows s). order_number r \<noteq> order_number obj"
      using True key' by (auto simp: filter_empty_conv)
    have old_pk: "\<forall>r\<in>set (order_rows s). pk r < next_order_pk s"
      using inv by (simp add: orders_inv_def list_all_iff)
    have one: "filter (\<lambda>r. order_number r = order_number obj) (order_rows s') = [obj]"
      using fresh by (simp add: s')
    have inv': "orders_inv s'"
      using inv fresh old_pk pkobj
      by (auto simp: orders_inv_def s' list_all_iff less_Suc_eq)
    have m': "filter ?P (order_rows s') = [obj]"
      using one key' by (simp add: eq_commute)
    have same: "map (\<lambda>r. if pk r = pk obj then obj else r) (order_rows s') = order_rows s'"
      using old_pk pkobj by (auto simp: s' intro!: map_idI)
    have again: "order_update_or_create d s' = (Inr obj, s')"
      using key m' f(3) same by (simp add: order_update_or_create_def)
    show ?thesis using one inv' again f(2) fresh by (auto simp: s')
  next
    case False
    with cases3 notmany obtain row where row: "?m = [row]" by blast
    with run key have so: "set_order_defaults d row = Inr obj"
      and s': "s' = s\<lparr>order_rows := map (\<lambda>r. if pk r = pk row then obj else r) (order_rows s)\<rparr>"
      by (auto simp: order_update_or_create_def split: sum.splits)
    note f = set_order_defaults_facts[OF so]
    have key': "key = Some (order_number obj)"
      using lookup_text_of_db_text[OF f(2)] key by simp
    from row obtain ys zs where split: "order_rows s = ys @ row # zs"
      and nys: "\<forall>r\<in>set ys. \<not> ?P r" and nzs: "\<forall>r\<in>set zs. \<not> ?P r" and prow: "?P row"
      by (rule filter_single_split)
    have dpk: "distinct (map pk (ys @ row # zs))"
      using inv by (simp add: orders_inv_def split)
    have rows': "order_rows s' = ys @ obj # zs"
      using map_replace_split[OF dpk, of obj] by (simp add: s' split)
    have num: "order_number row = order_number obj" using prow key' by simp
    have one: "filter (\<lambda>r. order_number r = order_number obj) (order_rows s') = [obj]"
      using nys nzs key' by (auto simp: rows' filter_empty_conv)
    have nxt: "next_order_pk s' = next_order_pk s" by (simp add: s')
    have inv': "orders_inv s'"
      using inv f(1) num unfolding orders_inv_def rows' nxt split by simp
    have m': "filter ?P (order_rows s') = [obj]"
      using one key' by (simp add: eq_commute)
    have dpk': "distinct (map pk (ys @ obj # zs))"
      using dpk f(1) by simp
    have same: "map (\<lambda>r. if pk r = pk obj then obj else r) (order_rows s') = order_rows s'"
      using map_replace_split[OF dpk', of obj] by (simp add: rows')
    have again: "order_update_or_create d s' = (Inr obj, s')"
      using key m' f(3) same by (simp add: order_update_or_create_def)
    have "order_number obj \<in> set (map order_number (order_rows s))"
      using num by (simp add: split)
    moreover have "map pk (order_rows s') = map pk (order_rows s)"
      using f(1) by (simp add: rows' split)
    moreover have "map order_number (order_rows s') = map order_number (order_rows s)"
      using num by (simp add: rows' split)
    ultimately show ?thesis using one inv' again f(2) by (simp add: s')
  qed
  then show "filter (\<lambda>r. order_number r = order_number obj) (order_rows s') = [obj]"
    and "orders_inv s'"
    and "order_update_or_create d s' = (Inr obj, s')"
    and "db_text (d_order_number d) = Inr (order_number obj)"
    and "item_rows s' = item_rows s"
    and "order_number obj \<in> set (map order_number (order_rows s)) \<longrightarrow>
           map pk (order_rows s') = map pk (order_rows s) \<and>
           map order_number (order_rows s') = map order_number (order_rows s)"
    and "order_number obj \<notin> set (map order_number (order_rows s)) \<longrightarrow>
           order_rows s' = order_rows s @ [obj]"
    by simp_all
qed


lemma make_order_defaults_facts:
  assumes "make_order_defaults raw = Inr d"
  shows "getitem raw ''orderId'' = Inr (d_order_number d)" and "d_from_api d = raw"
  using assms unfolding make_order_defaults_def and_then_def
  by (auto split: sum.splits)

lemma set_order_defaults_from_api:
  "set_order_defaults d r = Inr obj \<Longrightarrow> from_api obj = d_from_api d"
  by (auto simp: set_order_defaults_def and_then_def split: sum.splits)

lemma order_update_or_create_from_api:
  "order_update_or_create d s = (Inr obj, s') \<Longrightarrow> from_api obj = d_from_api d"
  by (auto simp: order_update_or_create_def set_order_defaults_from_api
      split: sum.splits list.splits)

lemma VtexClientOrder_factory_single:
  "VtexClientOrder_factory [raw] s = (Inr objs, s') \<longleftrightarrow>
     (\<exists>d obj. make_order_defaults raw = Inr d \<and> order_update_or_create d s = (Inr obj, s') \<and>
        objs = [obj])"
  by (auto simp: then_db_def split: sum.splits prod.splits)

text \<open>
  C5. On a store whose order numbers are distinct (the empty store is one, and the
  factory keeps it so), a successful run of the order factory on a raw order leaves
  exactly one row with the order's number, holding the object returned; running
  the factory again on the same raw order, any number of times, returns the same
  object and leaves the store as it is. If the number was in the store the row is
  updated in place (same primary keys), otherwise one row is added.
\<close>

theorem VtexClientOrder_factory_upsert:
  assumes "orders_inv s" and "VtexClientOrder_factory [raw] s = (Inr objs, s')"
  shows "\<exists>obj. objs = [obj] \<and>
           and_then (getitem raw ''orderId'') db_text = Inr (order_number obj) \<and>
           from_api obj = raw \<and>
           filter (\<lambda>r. order_number r = order_number obj) (order_rows s') = [obj] \<and>
           VtexClientOrder_factory [raw] s' = (Inr [obj], s') \<and>
           ((\<lambda>t. snd (VtexClientOrder_factory [raw] t)) ^^ n) s' = s' \<and>
           orders_inv s' \<and>
           (order_number obj \<in> set (map order_number (order_rows s)) \<longrightarrow>
              map pk (order_rows s') = map pk (order_rows s)) \<and>
           (order_number obj \<notin> set (map order_number (order_rows s)) \<longrightarrow>
              order_rows s' = order_rows s @ [obj])"
proof -
  from assms(2) obtain d obj where d: "make_order_defaults raw = Inr d"
    and u: "order_update_or_create d s = (Inr obj, s')" and objs: "objs = [obj]"
    unfolding VtexClientOrder_factory_single by blast
  note up = order_update_or_create_upsert[OF assms(1) u]
  have again: "VtexClientOrder_factory [raw] s' = (Inr [obj], s')"
    unfolding VtexClientOrder_factory_single using d up(3) by blast
  define f where "f = (\<lambda>t. snd (VtexClientOrder_factory [raw] t))"
  have "f s' = s'" by (simp only: f_def again snd_conv)
  then have "(f ^^ n) s' = s'" by (induction n) simp_all
  then have rep: "((\<lambda>t. snd (VtexClientOrder_factory [raw] t)) ^^ n) s' = s'"
    by (simp only: f_def)
  have num: "and_then (getitem raw ''orderId'') db_text = Inr (order_number obj)"
    using make_order_defaults_facts(1)[OF d] up(4) by (simp add: and_then_def)
  have api: "from_api obj = raw"
    using order_update_or_create_from_api[OF u] make_order_defaults_facts(2)[OF d] by simp
  show ?thesis
    using objs num api up(1) again rep up(2) up(6) up(7) by simp
qed

lemma orders_inv_empty: "orders_inv empty_db"
  by (simp add: orders_inv_def empty_db_def)

lemma sample_factory:
  "VtexClientOrder_factory [sample_raw_order number items] empty_db =
     (Inr [sample_order 1 number items],
      empty_db\<lparr>order_rows := [sample_order 1 number items], next_order_pk := 2\<rparr>)"
  by (simp add: sample_order_defaults then_db_def order_update_or_create_def lookup_text_def
      py_str_def and_then_def empty_db_def set_order_defaults_def db_text_def
      VtexClientOrder_init_def sample_order_def sample_now_def)

theorem VtexClientOrder_factory_upsert_witness:
  "orders_inv empty_db \<and>
   VtexClientOrder_factory [sample_raw_order ''v1'' []] empty_db =
     (Inr [sample_order 1 ''v1'' []],
      empty_db\<lparr>order_rows := [sample_order 1 ''v1'' []], next_order_pk := 2\<rparr>) \<and>
   VtexClientOrder_factory [sample_raw_order ''v1'' []]
     (empty_db\<lparr>order_rows := [sample_order 1 ''v1'' []], next_order_pk := 2\<rparr>) =
     (Inr [sample_order 1 ''v1'' []],
      empty_db\<lparr>order_rows := [sample_order 1 ''v1'' []], next_order_pk := 2\<rparr>)"
  using VtexClientOrder_factory_upsert[OF orders_inv_empty sample_factory, of "''v1''" "[]" 1]
  unfolding sample_factory
  by (simp add: orders_inv_empty del: VtexClientOrder_factory.simps)

subsection \<open>The item factory\<close>

lemma set_item_defaults_facts:
  assumes "set_item_defaults d r = Inr obj"
  shows "item_number obj = d_item_number d"
    and "item_price_without_tax obj = d_item_price_without_tax d"
    and "db_int (d_item_qty d) = Inr (item_qty obj)"
    and "item_pk obj = item_pk r" and "order_fk obj = order_fk r" and "ean obj = ean r"
    and "vtex_item obj = vtex_item r"
  using assms
  by (auto simp: set_item_defaults_def and_then_def vtex_item_def split: sum.splits)

lemma item_update_or_create_facts:
  assumes run: "item_update_or_create order e d s = (Inr obj, s')"
  shows "item_number obj = d_item_number d"
    and "item_price_without_tax obj = d_item_price_without_tax d"
    and "db_int (d_item_qty d) = Inr (item_qty obj)"
    and "db_text e = Inr (ean obj)"
    and "order_fk obj = pk order"
    and "list_all vtex_item (item_rows s) \<longrightarrow> vtex_item obj \<and> list_all vtex_item (item_rows s')"
    and "order_rows s' = order_rows s"
proof -
  from run obtain key where key: "lookup_text e = Inr key"
    by (cases "lookup_text e") (auto simp: item_update_or_create_def)
  let ?P = "\<lambda>r. order_fk r = pk order \<and> Some (ean r) = key"
  let ?m = "filter ?P (item_rows s)"
  have all_goals: "item_number obj = d_item_number d \<and>
     item_price_without_tax obj = d_item_price_without_tax d \<and>
     db_int (d_item_qty d) = Inr (item_qty obj) \<and> db_text e = Inr (ean obj) \<and>
     order_fk obj = pk order \<and>
     (list_all vtex_item (item_rows s) \<longrightarrow> vtex_item obj \<and> list_all vtex_item (item_rows s')) \<and>
     order_rows s' = order_rows s"
  proof (cases ?m)
    case Nil
    with run key obtain e_s where es: "db_text e = Inr e_s"
      and so: "set_item_defaults d (VtexClientOrderItem_init (next_item_pk s) (pk order) e_s) = Inr obj"
      and s': "s' = s\<lparr>item_rows := item_rows s @ [obj], next_item_pk := Suc (next_item_pk s)\<rparr>"
      by (auto simp: item_update_or_create_def and_then_def split: sum.splits)
    note f = set_item_defaults_facts[OF so]
    have "vtex_item obj" using f(7) by (simp add: vtex_item_def VtexClientOrderItem_init_def)
    then show ?thesis using f es by (simp add: s' VtexClientOrderItem_init_def)
  next
    case (Cons row rest)
    with run key have rest: "rest = []"
      by (cases rest) (auto simp: item_update_or_create_def split: sum.splits)
    with Cons run key have so: "set_item_defaults d row = Inr obj"
      and s': "s' = s\<lparr>item_rows := map (\<lambda>r. if item_pk r = item_pk row then obj else r) (item_rows s)\<rparr>"
      by (auto simp: item_update_or_create_def split: sum.splits)
    note f = set_item_defaults_facts[OF so]
    have "row \<in> set ?m" using Cons by simp
    then have row: "row \<in> set (item_rows s)" "order_fk row = pk order" "Some (ean row) = key"
      by simp_all
    have "db_text e = Inr (ean row)"
      using key row(3) by (auto simp: lookup_text_def db_text_def and_then_def split: if_splits sum.splits)
    moreover have "list_all vtex_item (item_rows s) \<longrightarrow> vtex_item obj \<and> list_all vtex_item (item_rows s')"
      using row(1) f(7) by (auto simp: s' list_all_iff)
    ultimately show ?thesis using f row(2) by (simp add: s')
  qed
  then show "item_number obj = d_item_number d"
    and "item_price_without_tax obj = d_item_price_without_tax d"
    and "db_int (d_item_qty d) = Inr (item_qty obj)"
    and "db_text e = Inr (ean obj)"
    and "order_fk obj = pk order"
    and "list_all vtex_item (item_rows s) \<longrightarrow> vtex_item obj \<and> list_all vtex_item (item_rows s')"
    and "order_rows s' = order_rows s"
    by simp_all
qed

text \<open>What the factory derives from the item at position \<open>index\<close> of the payload.\<close>

lemma order_items_loop_step:
  "order_items_loop order ((index, item) # rest) s = (Inr objs, s') \<longleftrightarrow>
     (\<exists>d e obj s1 objs'. make_item_defaults index item = Inr d \<and> getitem item ''ean'' = Inr e \<and>
        item_update_or_create order e d s = (Inr obj, s1) \<and>
        order_items_loop order rest s1 = (Inr objs', s') \<and> objs = obj # objs')"
  by (auto simp: then_db_def split: sum.splits prod.splits)

lemma make_item_defaults_facts:
  assumes "make_item_defaults index item = Inr d"
  shows "d_item_number d = int index + 1"
    and "getitem item ''quantity'' = Inr (d_item_qty d)"
    and "and_then (getitem item ''price'') py_floordiv100 = Inr (d_item_price_without_tax d)"
  using assms by (auto simp: make_item_defaults_def and_then_def split: sum.splits)

lemma order_items_loop_items:
  "order_items_loop order (List.enumerate n items) s = (Inr objs, s') \<Longrightarrow>
   length objs = length items \<and>
   (\<forall>i<length items.
      item_number (objs ! i) = int (n + i) + 1 \<and>
      and_then (getitem (items ! i) ''quantity'') db_int = Inr (item_qty (objs ! i)) \<and>
      and_then (getitem (items ! i) ''price'') py_floordiv100 =
        Inr (item_price_without_tax (objs ! i)) \<and>
      and_then (getitem (items ! i) ''ean'') db_text = Inr (ean (objs ! i)) \<and>
      order_fk (objs ! i) = pk order \<and>
      (list_all vtex_item (item_rows s) \<longrightarrow> vtex_item (objs ! i))) \<and>
   (list_all vtex_item (item_rows s) \<longrightarrow> list_all vtex_item (item_rows s')) \<and>
   order_rows s' = order_rows s"
proof (induction items arbitrary: n s objs)
  case Nil
  then show ?case by simp
next
  case (Cons item items)
  from Cons.prems obtain d e obj s1 objs' where
    d: "make_item_defaults n item = Inr d" and e: "getitem item ''ean'' = Inr e"
    and u: "item_update_or_create order e d s = (Inr obj, s1)"
    and rest: "order_items_loop order (List.enumerate (Suc n) items) s1 = (Inr objs', s')"
    and objs: "objs = obj # objs'"
    by (auto simp: order_items_loop_step simp del: order_items_loop.simps)
  note df = make_item_defaults_facts[OF d]
  note uf = item_update_or_create_facts[OF u]
  note ih = Cons.IH[OF rest]
  have head: "item_number obj = int n + 1 \<and>
      and_then (getitem item ''quantity'') db_int = Inr (item_qty obj) \<and>
      and_then (getitem item ''price'') py_floordiv100 = Inr (item_price_without_tax obj) \<and>
      and_then (getitem item ''ean'') db_text = Inr (ean obj) \<and>
      order_fk obj = pk order \<and>
      (list_all vtex_item (item_rows s) \<longrightarrow> vtex_item obj)"
    using df uf e by (simp add: and_then_def)
  show ?case
  proof (intro conjI allI impI)
    show "length objs = length (item # items)" using ih objs by simp
  next
    assume "list_all vtex_item (item_rows s)"
    then show "list_all vtex_item (item_rows s')" using uf(6) ih by simp
  next
    show "order_rows s' = order_rows s" using uf(7) ih by simp
  next
    fix i assume i: "i < length (item # items)"
    show "item_number (objs ! i) = int (n + i) + 1" 
      using i head ih objs by (cases i) simp_all
    show "and_then (getitem ((item # items) ! i) ''quantity'') db_int = Inr (item_qty (objs ! i))"
      using i head ih objs by (cases i) simp_all
    show "and_then (getitem ((item # items) ! i) ''price'') py_floordiv100 =
        Inr (item_price_without_tax (objs ! i))"
      using i head ih objs by (cases i) simp_all
    show "and_then (getitem ((item # items) ! i) ''ean'') db_text = Inr (ean (objs ! i))"
      using i head ih objs by (cases i) simp_all
    show "order_fk (objs ! i) = pk order"
      using i head ih objs by (cases i) simp_all
    show "vtex_item (objs ! i)" if "list_all vtex_item (item_rows s)"
      using i head ih objs uf(6) that by (cases i) simp_all
  qed
qed


lemma VtexClientOrderItem_factory_single:
  "VtexClientOrderItem_factory [order] s = (Inr objs, s') \<longleftrightarrow>
     (\<exists>items. and_then (getitem (from_api order) ''items'') py_iter = Inr items \<and>
        order_items_loop order (List.enumerate 0 items) s = (Inr objs, s'))"
  by (auto simp: then_db_def split: sum.splits prod.splits)

text \<open>
  C6. A successful run of the item factory on an order returns one item per entry
  of the order's raw item list, in list order: the item at position \<open>i\<close> (from 0)
  has \<open>item_number = i + 1\<close>, the entry's quantity, its price divided by 100
  (rounding down), its EAN and the order as owner; on a store whose item rows carry
  the constants of \<open>VtexClientOrderItem\<close> (the empty store is one, and the factory
  keeps it so) it has tax code \<open>001\<close>, type \<open>D\<close>, \<open>qty = 0\<close> and an empty
  destination address code.
\<close>

theorem VtexClientOrderItem_factory_items:
  assumes "list_all vtex_item (item_rows s)"
    and "VtexClientOrderItem_factory [order] s = (Inr objs, s')"
  shows "\<exists>items. and_then (getitem (from_api order) ''items'') py_iter = Inr items \<and>
           length objs = length items \<and>
           (\<forall>i<length items.
              item_number (objs ! i) = int i + 1 \<and>
              (\<forall>q. getitem (items ! i) ''quantity'' = Inr (JInt q) \<longrightarrow> item_qty (objs ! i) = q) \<and>
              (\<forall>p. getitem (items ! i) ''price'' = Inr (JInt p) \<longrightarrow>
                   item_price_without_tax (objs ! i) = p div 100) \<and>
              (\<forall>e. getitem (items ! i) ''ean'' = Inr (JStr e) \<longrightarrow> ean (objs ! i) = e) \<and>
              order_fk (objs ! i) = pk order \<and>
              tax_code (objs ! i) = ''001'' \<and> item_type (objs ! i) = ''D'' \<and>
              qty (objs ! i) = 0 \<and> destination_address_code (objs ! i) = []) \<and>
           list_all vtex_item (item_rows s')"
proof -
  from assms(2) obtain items where
    items: "and_then (getitem (from_api order) ''items'') py_iter = Inr items"
    and loop: "order_items_loop order (List.enumerate 0 items) s = (Inr objs, s')"
    unfolding VtexClientOrderItem_factory_single by blast
  note l = order_items_loop_items[OF loop]
  have each: "item_number (objs ! i) = int i + 1 \<and>
              (\<forall>q. getitem (items ! i) ''quantity'' = Inr (JInt q) \<longrightarrow> item_qty (objs ! i) = q) \<and>
              (\<forall>p. getitem (items ! i) ''price'' = Inr (JInt p) \<longrightarrow>
                   item_price_without_tax (objs ! i) = p div 100) \<and>
              (\<forall>e. getitem (items ! i) ''ean'' = Inr (JStr e) \<longrightarrow> ean (objs ! i) = e) \<and>
              order_fk (objs ! i) = pk order \<and>
              tax_code (objs ! i) = ''001'' \<and> item_type (objs ! i) = ''D'' \<and>
              qty (objs ! i) = 0 \<and> destination_address_code (objs ! i) = []"
    if i: "i < length items" for i
  proof -
    from l i assms(1) have
      n: "item_number (objs ! i) = int i + 1"
      and q: "and_then (getitem (items ! i) ''quantity'') db_int = Inr (item_qty (objs ! i))"
      and p: "and_then (getitem (items ! i) ''price'') py_floordiv100 =
                Inr (item_price_without_tax (objs ! i))"
      and e: "and_then (getitem (items ! i) ''ean'') db_text = Inr (ean (objs ! i))"
      and fk: "order_fk (objs ! i) = pk order"
      and v: "vtex_item (objs ! i)"
      by simp_all
    have "\<forall>q. getitem (items ! i) ''quantity'' = Inr (JInt q) \<longrightarrow> item_qty (objs ! i) = q"
      using q by (auto simp: and_then_def db_int_def as_int_def)
    moreover have "\<forall>p. getitem (items ! i) ''price'' = Inr (JInt p) \<longrightarrow>
                   item_price_without_tax (objs ! i) = p div 100"
      using p by (auto simp: and_then_def py_floordiv100_def as_int_def)
    moreover have "\<forall>e. getitem (items ! i) ''ean'' = Inr (JStr e) \<longrightarrow> ean (objs ! i) = e"
      using e by (auto simp: and_then_def db_text_def py_str_def)
    ultimately show ?thesis
      using n fk v by (simp add: vtex_item_def TaxCode_IVA_def)
  qed
  show ?thesis
    using items l assms(1) each by (intro exI[of _ items]) simp
qed

lemma sample_item_factory:
  "VtexClientOrderItem_factory
     [sample_order 1 number [sample_item ''770001'' 2 15050, sample_item ''770002'' 1 999]]
     empty_db =
   (Inr [\<lparr>item_pk = 1, order_fk = 1, item_type = ''D'', item_number = 1, ean = ''770001'',
          item_qty = 2, item_price_without_tax = 150, destination_address_code = [], qty = 0,
          tax_code = ''001''\<rparr>,
         \<lparr>item_pk = 2, order_fk = 1, item_type = ''D'', item_number = 2, ean = ''770002'',
          item_qty = 1, item_price_without_tax = 9, destination_address_code = [], qty = 0,
          tax_code = ''001''\<rparr>],
    empty_db\<lparr>item_rows :=
       [\<lparr>item_pk = 1, order_fk = 1, item_type = ''D'', item_number = 1, ean = ''770001'',
          item_qty = 2, item_price_without_tax = 150, destination_address_code = [], qty = 0,
          tax_code = ''001''\<rparr>,
         \<lparr>item_pk = 2, order_fk = 1, item_type = ''D'', item_number = 2, ean = ''770002'',
          item_qty = 1, item_price_without_tax = 9, destination_address_code = [], qty = 0,
          tax_code = ''001''\<rparr>], next_item_pk := 3\<rparr>)"
  by (simp add: sample_order_def sample_raw_order_def sample_item_def then_db_def json_defs
      enumerate_simps make_item_defaults_def item_update_or_create_def lookup_text_def db_text_def
      db_int_def set_item_defaults_def VtexClientOrderItem_init_def TaxCode_IVA_def empty_db_def
      upt_rec)

theorem VtexClientOrderItem_factory_items_witness:
  "list_all vtex_item (item_rows empty_db) \<and>
   (\<exists>objs s'. VtexClientOrderItem_factory
       [sample_order 1 ''v1'' [sample_item ''770001'' 2 15050, sample_item ''770002'' 1 999]]
       empty_db = (Inr objs, s') \<and>
     map item_number objs = [1, 2] \<and> map item_qty objs = [2, 1] \<and>
     map item_price_without_tax objs = [150, 9] \<and> map tax_code objs = [''001'', ''001''] \<and>
     list_all vtex_item (item_rows s'))"
proof -
  have h: "list_all vtex_item (item_rows empty_db)" by (simp add: empty_db_def)
  from VtexClientOrderItem_factory_items[OF h sample_item_factory, of "''v1''"]
  have "list_all vtex_item (item_rows (empty_db\<lparr>item_rows :=
       [\<lparr>item_pk = 1, order_fk = 1, item_type = ''D'', item_number = 1, ean = ''770001'',
          item_qty = 2, item_price_without_tax = 150, destination_address_code = [], qty = 0,
          tax_code = ''001''\<rparr>,
         \<lparr>item_pk = 2, order_fk = 1, item_type = ''D'', item_number = 2, ean = ''770002'',
          item_qty = 1, item_price_without_tax = 9, destination_address_code = [], qty = 0,
          tax_code = ''001''\<rparr>], next_item_pk := 3\<rparr>))"
    by blast
  with h show ?thesis
    unfolding sample_item_factory by simp
qed

subsection \<open>The order file\<close>




lemma sample_order_items [simp]:
  "and_then (getitem (from_api (sample_order k number items)) ''items'') py_iter = Inr items"
  by (simp add: sample_order_def sample_raw_order_def json_defs)

lemma sample_order_pk [simp]: "pk (sample_order k number items) = k"
  by (simp add: sample_order_def)

lemma sample_order_number [simp]: "order_number (sample_order k number items) = number"
  by (simp add: sample_order_def)

lemma sample_item_defaults:
  "make_item_defaults index (sample_item e quantity price) =
     Inr \<lparr>d_item_number = int index + 1, d_item_qty = JInt quantity,
          d_item_price_without_tax = price div 100\<rparr>"
  by (simp add: sample_item_def make_item_defaults_def json_defs)

lemma sample_item_ean: "getitem (sample_item e quantity price) ''ean'' = Inr (JStr e)"
  by (simp add: sample_item_def json_defs)

lemma sample_item_create:
  "filter (\<lambda>r. order_fk r = pk order \<and> ean r = e) (item_rows s) = [] \<Longrightarrow>
   item_update_or_create order (JStr e)
     \<lparr>d_item_number = number, d_item_qty = JInt quantity, d_item_price_without_tax = price\<rparr> s =
     (Inr (sample_item_row (next_item_pk s) (pk order) number e quantity price),
      s\<lparr>item_rows := item_rows s @
            [sample_item_row (next_item_pk s) (pk order) number e quantity price],
        next_item_pk := Suc (next_item_pk s)\<rparr>)"
  by (simp add: json_defs item_update_or_create_def
      lookup_text_def db_text_def db_int_def set_item_defaults_def VtexClientOrderItem_init_def
      TaxCode_IVA_def sample_item_row_def)














lemma map_of_dict_set: "map_of (dict_set k v d) k = Some v"
  by (induction d) auto










subsection \<open>The entry point\<close>

lemma order_update_or_create_frame:
  assumes "order_update_or_create d s = (res, s')"
  shows "item_rows s' = item_rows s"
    and "\<forall>row\<in>set (order_rows s'). row \<in> set (order_rows s) \<or> res = Inr row"
    and "\<forall>obj. res = Inr obj \<longrightarrow>
           db_text (d_order_number d) = Inr (order_number obj) \<and> from_api obj = d_from_api d"
  using assms
  by (auto simp: order_update_or_create_def set_order_defaults_from_api
      dest: set_order_defaults_facts(2)
      split: sum.splits list.splits if_splits)

lemma VtexClientOrder_factory_frame:
  "VtexClientOrder_factory raws s = (res, s') \<Longrightarrow>
   item_rows s' = item_rows s \<and>
   (\<forall>row\<in>set (order_rows s'). row \<in> set (order_rows s) \<or>
      (\<exists>raw\<in>set raws. raw_order_number raw = Inr (order_number row))) \<and>
   (\<forall>objs. res = Inr objs \<longrightarrow>
      (\<forall>obj\<in>set objs. \<exists>raw\<in>set raws.
         from_api obj = raw \<and> raw_order_number raw = Inr (order_number obj)))"
proof (induction raws arbitrary: s res s')
  case Nil
  then show ?case by auto
next
  case (Cons raw raws)
  show ?case
  proof (cases "make_order_defaults raw")
    case (Inl e)
    with Cons.prems show ?thesis by (auto simp: then_db_def)
  next
    case (Inr d)
    obtain r1 s1 where u: "order_update_or_create d s = (r1, s1)" by fastforce
    note f = order_update_or_create_frame[OF u]
    note df = make_order_defaults_facts[OF Inr]
    show ?thesis
    proof (cases r1)
      case (Inl e)
      with Cons.prems Inr u f show ?thesis by (auto simp: then_db_def)
    next
      case r1: (Inr obj)
      obtain r2 s2 where rest: "VtexClientOrder_factory raws s1 = (r2, s2)" by fastforce
      note ih = Cons.IH[OF rest]
      have num: "raw_order_number raw = Inr (order_number obj)" and api: "from_api obj = raw"
        using f(3) r1 df by (simp_all add: raw_order_number_def and_then_def)
      have s': "s' = s2" and res: "res = (case r2 of Inl e \<Rightarrow> Inl e | Inr objs \<Rightarrow> Inr (obj # objs))"
        using Cons.prems Inr u r1 rest by (auto simp: then_db_def split: sum.splits)
      have rows: "\<forall>row\<in>set (order_rows s2). row \<in> set (order_rows s) \<or>
          (\<exists>raw'\<in>set (raw # raws). raw_order_number raw' = Inr (order_number row))"
      proof
        fix row assume "row \<in> set (order_rows s2)"
        with ih consider "row \<in> set (order_rows s1)"
          | "\<exists>raw'\<in>set raws. raw_order_number raw' = Inr (order_number row)" by blast
        then show "row \<in> set (order_rows s) \<or>
          (\<exists>raw'\<in>set (raw # raws). raw_order_number raw' = Inr (order_number row))"
        proof cases
          case 1
          with f(2) r1 have "row \<in> set (order_rows s) \<or> row = obj" by auto
          then show ?thesis using num by auto
        next
          case 2
          then show ?thesis by auto
        qed
      qed
      have objs: "\<forall>objs. res = Inr objs \<longrightarrow>
        (\<forall>ob\<in>set objs. \<exists>raw'\<in>set (raw # raws).
           from_api ob = raw' \<and> raw_order_number raw' = Inr (order_number ob))"
        using res ih num api by (auto split: sum.splits)
      show ?thesis using s' ih f(1) rows objs by simp
    qed
  qed
qed


lemma item_update_or_create_frame:
  assumes "item_update_or_create order e d s = (res, s')"
  shows "order_rows s' = order_rows s"
    and "\<forall>it\<in>set (item_rows s'). it \<in> set (item_rows s) \<or> res = Inr it"
  using assms
  by (auto simp: item_update_or_create_def split: sum.splits list.splits if_splits)

lemma order_items_loop_frame:
  "order_items_loop order pairs s = (res, s') \<Longrightarrow>
   order_rows s' = order_rows s \<and>
   (\<forall>it\<in>set (item_rows s'). it \<in> set (item_rows s) \<or>
      (\<exists>p\<in>set pairs. and_then (getitem (snd p) ''ean'') db_text = Inr (ean it)))"
proof (induction pairs arbitrary: s res s')
  case Nil
  then show ?case by auto
next
  case (Cons p pairs)
  obtain index item where p: "p = (index, item)" by (cases p)
  show ?case
  proof (cases "make_item_defaults index item")
    case (Inl e)
    with Cons.prems p show ?thesis by (auto simp: then_db_def)
  next
    case d: (Inr d)
    show ?thesis
    proof (cases "getitem item ''ean''")
      case (Inl e)
      with Cons.prems p d show ?thesis by (auto simp: then_db_def)
    next
      case e: (Inr e)
      obtain r1 s1 where u: "item_update_or_create order e d s = (r1, s1)" by fastforce
      note f = item_update_or_create_frame[OF u]
      show ?thesis
      proof (cases r1)
        case (Inl err)
        with Cons.prems p d e u f show ?thesis by (auto simp: then_db_def)
      next
        case r1: (Inr obj)
        obtain r2 s2 where rest: "order_items_loop order pairs s1 = (r2, s2)" by fastforce
        note ih = Cons.IH[OF rest]
        have s': "s' = s2"
          using Cons.prems p d e u r1 rest by (auto simp: then_db_def split: sum.splits)
        have objean: "and_then (getitem (snd p) ''ean'') db_text = Inr (ean obj)"
          using item_update_or_create_facts(4)[of order e d s obj s1] u r1 e p
          by (simp add: and_then_def)
        have "\<forall>it\<in>set (item_rows s2). it \<in> set (item_rows s) \<or>
          (\<exists>q\<in>set (p # pairs). and_then (getitem (snd q) ''ean'') db_text = Inr (ean it))"
        proof
          fix it assume "it \<in> set (item_rows s2)"
          with ih consider "it \<in> set (item_rows s1)"
            | "\<exists>q\<in>set pairs. and_then (getitem (snd q) ''ean'') db_text = Inr (ean it)" by blast
          then show "it \<in> set (item_rows s) \<or>
            (\<exists>q\<in>set (p # pairs). and_then (getitem (snd q) ''ean'') db_text = Inr (ean it))"
          proof cases
            case 1
            with f(2) r1 have "it \<in> set (item_rows s) \<or> it = obj" by auto
            then show ?thesis using objean by auto
          next
            case 2
            then show ?thesis by auto
          qed
        qed
        then show ?thesis using s' ih f(1) by simp
      qed
    qed
  qed
qed

lemma snd_enumerate: "snd ` set (List.enumerate n xs) = set xs"
  by (induction xs arbitrary: n) (auto simp: enumerate_simps)

lemma VtexClientOrderItem_factory_frame:
  "VtexClientOrderItem_factory orders s = (res, s') \<Longrightarrow>
   order_rows s' = order_rows s \<and>
   (\<forall>it\<in>set (item_rows s'). it \<in> set (item_rows s) \<or>
      (\<exists>ob\<in>set orders. Inr (ean it) \<in> set (raw_item_eans (from_api ob))))"
proof (induction orders arbitrary: s res s')
  case Nil
  then show ?case by auto
next
  case (Cons ob orders)
  show ?case
  proof (cases "and_then (getitem (from_api ob) ''items'') py_iter")
    case (Inl e)
    with Cons.prems show ?thesis by (auto simp: then_db_def)
  next
    case items: (Inr items)
    obtain r1 s1 where loop: "order_items_loop ob (List.enumerate 0 items) s = (r1, s1)"
      by fastforce
    note f = order_items_loop_frame[OF loop]
    have mine: "\<forall>it\<in>set (item_rows s1). it \<in> set (item_rows s) \<or>
        Inr (ean it) \<in> set (raw_item_eans (from_api ob))"
    proof
      fix it assume "it \<in> set (item_rows s1)"
      with f consider "it \<in> set (item_rows s)"
        | p where "p \<in> set (List.enumerate 0 items)"
            "and_then (getitem (snd p) ''ean'') db_text = Inr (ean it)" by blast
      then show "it \<in> set (item_rows s) \<or> Inr (ean it) \<in> set (raw_item_eans (from_api ob))"
      proof cases
        case 1
        then show ?thesis by simp
      next
        case 2
        from 2(1) have "snd p \<in> set items" using snd_enumerate[of 0 items] by force
        with 2(2) have "Inr (ean it) \<in> (\<lambda>item. and_then (getitem item ''ean'') db_text) ` set items"
          by force
        then show ?thesis by (simp add: raw_item_eans_def items)
      qed
    qed
    show ?thesis
    proof (cases r1)
      case (Inl e)
      with Cons.prems items loop have "s' = s1" by (auto simp: then_db_def)
      then show ?thesis using f mine by auto
    next
      case r1: (Inr objs)
      obtain r2 s2 where rest: "VtexClientOrderItem_factory orders s1 = (r2, s2)" by fastforce
      note ih = Cons.IH[OF rest]
      have s': "s' = s2"
        using Cons.prems items loop r1 rest by (auto simp: then_db_def split: sum.splits)
      have "\<forall>it\<in>set (item_rows s2). it \<in> set (item_rows s) \<or>
        (\<exists>ob'\<in>set (ob # orders). Inr (ean it) \<in> set (raw_item_eans (from_api ob')))"
        using ih mine by auto
      then show ?thesis using s' ih f by simp
    qed
  qed
qed

lemma set_dict_set: "set (dict_set k v d) \<subseteq> insert (k, v) (set d)"
  by (induction d) auto

lemma create_order_files_frame:
  "create_order_files s orders srv = (r, srv') \<Longrightarrow>
   \<forall>f\<in>set (files srv'). f \<in> set (files srv) \<or> (\<exists>ob\<in>set orders. fst f = order_file_path ob)"
proof (induction orders arbitrary: srv)
  case Nil
  then show ?case by simp
next
  case (Cons ob orders)
  show ?case
  proof (cases "writable srv (order_file_path ob)")
    case False
    with Cons.prems show ?thesis by (auto simp: Let_def)
  next
    case True
    let ?srv1 = "srv\<lparr>files := dict_set (order_file_path ob)
        (order_file_body ob (orderitem_set s ob)) (files srv)\<rparr>"
    from Cons.prems True have "create_order_files s orders ?srv1 = (r, srv')"
      by (simp add: Let_def)
    from Cons.IH[OF this] have
      "\<forall>f\<in>set (files srv'). f \<in> set (files ?srv1) \<or> (\<exists>ob'\<in>set orders. fst f = order_file_path ob')" .
    moreover have "\<forall>f\<in>set (files ?srv1). f \<in> set (files srv) \<or> fst f = order_file_path ob"
      using set_dict_set[of "order_file_path ob" "order_file_body ob (orderitem_set s ob)" "files srv"]
      by fastforce
    ultimately show ?thesis by auto
  qed
qed

lemma same_maps_rows:
  assumes "map f xs' = map f xs" and "map g xs' = map g xs" and "x \<in> set xs"
  shows "\<exists>x'\<in>set xs'. f x' = f x \<and> g x' = g x"
proof -
  from assms(3) obtain i where i: "i < length xs" "xs ! i = x" by (auto simp: in_set_conv_nth)
  have len: "length xs' = length xs" using assms(1) by (metis length_map)
  have "f (xs' ! i) = f x" using assms(1) i len by (metis nth_map)
  moreover have "g (xs' ! i) = g x" using assms(2) i len by (metis nth_map)
  moreover have "xs' ! i \<in> set xs'" using i len by simp
  ultimately show ?thesis by blast
qed

lemma order_update_or_create_keeps:
  assumes inv: "orders_inv s" and u: "order_update_or_create d s = (Inr obj, s1)"
  shows "\<forall>row\<in>set (order_rows s). \<exists>row'\<in>set (order_rows s1).
           pk row' = pk row \<and> order_number row' = order_number row"
    and "obj \<in> set (order_rows s1)"
proof -
  note up = order_update_or_create_upsert[OF inv u]
  show "obj \<in> set (order_rows s1)"
  proof -
    have "obj \<in> set (filter (\<lambda>r. order_number r = order_number obj) (order_rows s1))"
      unfolding up(1) by simp
    then show ?thesis by simp
  qed
  show "\<forall>row\<in>set (order_rows s). \<exists>row'\<in>set (order_rows s1).
           pk row' = pk row \<and> order_number row' = order_number row"
  proof (cases "order_number obj \<in> set (map order_number (order_rows s))")
    case True
    with up(6) have "map pk (order_rows s1) = map pk (order_rows s)"
      and "map order_number (order_rows s1) = map order_number (order_rows s)" by simp_all
    then show ?thesis using same_maps_rows by fast
  next
    case False
    with up(7) have "order_rows s1 = order_rows s @ [obj]" by simp
    then show ?thesis by auto
  qed
qed

lemma VtexClientOrder_factory_cons:
  "VtexClientOrder_factory (raw # raws) s = (Inr objs, s') \<longleftrightarrow>
     (\<exists>d obj s1 objs'. make_order_defaults raw = Inr d \<and>
        order_update_or_create d s = (Inr obj, s1) \<and>
        VtexClientOrder_factory raws s1 = (Inr objs', s') \<and> objs = obj # objs')"
  by (auto simp: then_db_def split: sum.splits prod.splits)

lemma VtexClientOrder_factory_stores:
  "orders_inv s \<Longrightarrow> VtexClientOrder_factory raws s = (Inr objs, s') \<Longrightarrow>
   orders_inv s' \<and>
   (\<forall>row\<in>set (order_rows s). \<exists>row'\<in>set (order_rows s').
      pk row' = pk row \<and> order_number row' = order_number row) \<and>
   (\<forall>raw\<in>set raws. \<exists>ob\<in>set objs.
      from_api ob = raw \<and> raw_order_number raw = Inr (order_number ob)) \<and>
   (\<forall>ob\<in>set objs. \<exists>row\<in>set (order_rows s').
      pk row = pk ob \<and> order_number row = order_number ob)"
proof (induction raws arbitrary: s objs)
  case Nil
  then show ?case by auto
next
  case (Cons raw raws)
  from Cons.prems(2) obtain d obj s1 objs' where d: "make_order_defaults raw = Inr d"
    and u: "order_update_or_create d s = (Inr obj, s1)"
    and rest: "VtexClientOrder_factory raws s1 = (Inr objs', s')" and objs: "objs = obj # objs'"
    unfolding VtexClientOrder_factory_cons by blast
  note up = order_update_or_create_upsert[OF Cons.prems(1) u]
  note keep = order_update_or_create_keeps[OF Cons.prems(1) u]
  note ih = Cons.IH[OF up(2) rest]
  have num: "raw_order_number raw = Inr (order_number obj)" and api: "from_api obj = raw"
    using up(4) make_order_defaults_facts[OF d] order_update_or_create_from_api[OF u]
    by (simp_all add: raw_order_number_def and_then_def)
  have keep': "\<forall>row\<in>set (order_rows s). \<exists>row'\<in>set (order_rows s').
      pk row' = pk row \<and> order_number row' = order_number row"
  proof
    fix row assume "row \<in> set (order_rows s)"
    with keep(1) obtain r1 where "r1 \<in> set (order_rows s1)" "pk r1 = pk row"
      "order_number r1 = order_number row" by blast
    with ih show "\<exists>row'\<in>set (order_rows s'). pk row' = pk row \<and> order_number row' = order_number row"
      by (metis (no_types, lifting))
  qed
  have objrow: "\<exists>row\<in>set (order_rows s'). pk row = pk obj \<and> order_number row = order_number obj"
    using keep(2) ih by blast
  show ?case
    using ih keep' objrow num api objs by auto
qed


lemma item_update_or_create_keeps:
  assumes inv: "items_inv s" and u: "item_update_or_create order e d s = (Inr obj, s1)"
  shows "items_inv s1"
    and "obj \<in> set (item_rows s1)"
    and "\<forall>it\<in>set (item_rows s). \<exists>it'\<in>set (item_rows s1).
           order_fk it' = order_fk it \<and> ean it' = ean it"
proof -
  from u obtain key where key: "lookup_text e = Inr key"
    by (cases "lookup_text e") (auto simp: item_update_or_create_def)
  let ?P = "\<lambda>r. order_fk r = pk order \<and> Some (ean r) = key"
  let ?m = "filter ?P (item_rows s)"
  have all_goals: "items_inv s1 \<and> obj \<in> set (item_rows s1) \<and>
    (\<forall>it\<in>set (item_rows s). \<exists>it'\<in>set (item_rows s1).
           order_fk it' = order_fk it \<and> ean it' = ean it)"
  proof (cases ?m)
    case Nil
    with u key obtain e_s where
      so: "set_item_defaults d (VtexClientOrderItem_init (next_item_pk s) (pk order) e_s) = Inr obj"
      and s1: "s1 = s\<lparr>item_rows := item_rows s @ [obj], next_item_pk := Suc (next_item_pk s)\<rparr>"
      by (auto simp: item_update_or_create_def and_then_def split: sum.splits)
    have pkobj: "item_pk obj = next_item_pk s"
      using set_item_defaults_facts(4)[OF so] by (simp add: VtexClientOrderItem_init_def)
    have old: "\<forall>r\<in>set (item_rows s). item_pk r < next_item_pk s"
      using inv by (simp add: items_inv_def list_all_iff)
    have "items_inv s1"
      using inv old pkobj by (auto simp: items_inv_def s1 list_all_iff less_Suc_eq)
    then show ?thesis by (auto simp: s1)
  next
    case (Cons row rest)
    with u key have rest: "rest = []"
      by (cases rest) (auto simp: item_update_or_create_def split: sum.splits)
    with Cons u key have so: "set_item_defaults d row = Inr obj"
      and s1: "s1 = s\<lparr>item_rows := map (\<lambda>r. if item_pk r = item_pk row then obj else r) (item_rows s)\<rparr>"
      by (auto simp: item_update_or_create_def split: sum.splits)
    note f = set_item_defaults_facts[OF so]
    from Cons rest obtain ys zs where split: "item_rows s = ys @ row # zs"
      by (metis filter_eq_Cons_iff)
    have dpk: "distinct (map item_pk (ys @ row # zs))"
      using inv by (simp add: items_inv_def split)
    have rows1: "item_rows s1 = ys @ obj # zs"
      using map_replace_split[OF dpk, of obj] by (simp add: s1 split)
    have nxt: "next_item_pk s1 = next_item_pk s" by (simp add: s1)
    have "items_inv s1"
      using inv f(4) unfolding items_inv_def rows1 nxt split by simp
    moreover have "\<forall>it\<in>set (item_rows s). \<exists>it'\<in>set (item_rows s1).
           order_fk it' = order_fk it \<and> ean it' = ean it"
      using f(5,6) unfolding rows1 split by auto
    ultimately show ?thesis by (simp add: rows1)
  qed
  then show "items_inv s1" and "obj \<in> set (item_rows s1)"
    and "\<forall>it\<in>set (item_rows s). \<exists>it'\<in>set (item_rows s1).
           order_fk it' = order_fk it \<and> ean it' = ean it"
    by simp_all
qed

lemma order_items_loop_stores:
  "items_inv s \<Longrightarrow> order_items_loop order pairs s = (Inr objs, s') \<Longrightarrow>
   items_inv s' \<and>
   (\<forall>it\<in>set (item_rows s). \<exists>it'\<in>set (item_rows s').
      order_fk it' = order_fk it \<and> ean it' = ean it) \<and>
   (\<forall>p\<in>set pairs. \<exists>it\<in>set (item_rows s').
      order_fk it = pk order \<and> and_then (getitem (snd p) ''ean'') db_text = Inr (ean it))"
proof (induction pairs arbitrary: s objs)
  case Nil
  then show ?case by auto
next
  case (Cons p pairs)
  obtain index item where p: "p = (index, item)" by (cases p)
  from Cons.prems(2) obtain d e obj s1 objs' where
    d: "make_item_defaults index item = Inr d" and e: "getitem item ''ean'' = Inr e"
    and u: "item_update_or_create order e d s = (Inr obj, s1)"
    and rest: "order_items_loop order pairs s1 = (Inr objs', s')"
    unfolding p order_items_loop_step by blast
  note uf = item_update_or_create_facts[OF u]
  note keep = item_update_or_create_keeps[OF Cons.prems(1) u]
  note ih = Cons.IH[OF keep(1) rest]
  have keep': "\<forall>it\<in>set (item_rows s). \<exists>it'\<in>set (item_rows s').
      order_fk it' = order_fk it \<and> ean it' = ean it"
  proof
    fix it assume "it \<in> set (item_rows s)"
    with keep(3) obtain i1 where "i1 \<in> set (item_rows s1)" "order_fk i1 = order_fk it"
      "ean i1 = ean it" by blast
    with ih show "\<exists>it'\<in>set (item_rows s'). order_fk it' = order_fk it \<and> ean it' = ean it"
      by (metis (no_types, lifting))
  qed
  have "\<exists>it\<in>set (item_rows s'). order_fk it = order_fk obj \<and> ean it = ean obj"
    using keep(2) ih by blast
  then have head: "\<exists>it\<in>set (item_rows s').
      order_fk it = pk order \<and> and_then (getitem (snd p) ''ean'') db_text = Inr (ean it)"
    using uf(4,5) e p by (auto simp: and_then_def)
  show ?case using ih keep' head by auto
qed

lemma VtexClientOrderItem_factory_cons:
  "VtexClientOrderItem_factory (ob # orders) s = (Inr created, s') \<longleftrightarrow>
     (\<exists>items objs s1 objs'. and_then (getitem (from_api ob) ''items'') py_iter = Inr items \<and>
        order_items_loop ob (List.enumerate 0 items) s = (Inr objs, s1) \<and>
        VtexClientOrderItem_factory orders s1 = (Inr objs', s') \<and> created = objs @ objs')"
  by (auto simp: then_db_def split: sum.splits prod.splits)

lemma VtexClientOrderItem_factory_stores:
  "items_inv s \<Longrightarrow> VtexClientOrderItem_factory orders s = (Inr created, s') \<Longrightarrow>
   items_inv s' \<and>
   (\<forall>it\<in>set (item_rows s). \<exists>it'\<in>set (item_rows s').
      order_fk it' = order_fk it \<and> ean it' = ean it) \<and>
   (\<forall>ob\<in>set orders. \<forall>e\<in>set (raw_item_eans (from_api ob)). \<exists>it\<in>set (item_rows s').
      order_fk it = pk ob \<and> e = Inr (ean it))"
proof (induction orders arbitrary: s created)
  case Nil
  then show ?case by auto
next
  case (Cons ob orders)
  from Cons.prems(2) obtain items objs s1 objs' where
    items: "and_then (getitem (from_api ob) ''items'') py_iter = Inr items"
    and loop: "order_items_loop ob (List.enumerate 0 items) s = (Inr objs, s1)"
    and rest: "VtexClientOrderItem_factory orders s1 = (Inr objs', s')"
    unfolding VtexClientOrderItem_factory_cons by blast
  note l = order_items_loop_stores[OF Cons.prems(1) loop]
  from l have inv1: "items_inv s1" by simp
  note ih = Cons.IH[OF inv1 rest]
  have keep': "\<forall>it\<in>set (item_rows s). \<exists>it'\<in>set (item_rows s').
      order_fk it' = order_fk it \<and> ean it' = ean it"
  proof
    fix it assume "it \<in> set (item_rows s)"
    with l obtain i1 where "i1 \<in> set (item_rows s1)" "order_fk i1 = order_fk it"
      "ean i1 = ean it" by blast
    with ih show "\<exists>it'\<in>set (item_rows s'). order_fk it' = order_fk it \<and> ean it' = ean it"
      by (metis (no_types, lifting))
  qed
  have mine: "\<forall>e\<in>set (raw_item_eans (from_api ob)). \<exists>it\<in>set (item_rows s').
      order_fk it = pk ob \<and> e = Inr (ean it)"
  proof
    fix e assume "e \<in> set (raw_item_eans (from_api ob))"
    then obtain item where item: "item \<in> set items"
      and e: "e = and_then (getitem item ''ean'') db_text"
      by (auto simp: raw_item_eans_def items)
    from item obtain p where p: "p \<in> set (List.enumerate 0 items)" "snd p = item"
      using snd_enumerate[of 0 items] by force
    with l obtain i1 where "i1 \<in> set (item_rows s1)" "order_fk i1 = pk ob"
      "and_then (getitem item ''ean'') db_text = Inr (ean i1)" by blast
    moreover from this ih obtain i2 where "i2 \<in> set (item_rows s')"
      "order_fk i2 = order_fk i1" "ean i2 = ean i1" by blast
    ultimately show "\<exists>it\<in>set (item_rows s'). order_fk it = pk ob \<and> e = Inr (ean it)"
      using e by auto
  qed
  show ?case using ih keep' mine by auto
qed


lemma map_of_dict_set_other: "k \<noteq> k' \<Longrightarrow> map_of (dict_set k v d) k' = map_of d k'"
  by (induction d) auto

lemma create_order_files_keeps:
  "create_order_files s orders srv = (r, srv') \<Longrightarrow>
   \<forall>ob\<in>set orders. order_file_path ob \<noteq> path \<Longrightarrow>
   map_of (files srv') path = map_of (files srv) path"
proof (induction orders arbitrary: srv)
  case Nil
  then show ?case by simp
next
  case (Cons ob orders)
  show ?case
  proof (cases "writable srv (order_file_path ob)")
    case False
    with Cons.prems show ?thesis by (simp add: Let_def)
  next
    case True
    let ?srv1 = "srv\<lparr>files := dict_set (order_file_path ob)
        (order_file_body ob (orderitem_set s ob)) (files srv)\<rparr>"
    from Cons.prems True have "create_order_files s orders ?srv1 = (r, srv')"
      by (simp add: Let_def)
    from Cons.IH[OF this] Cons.prems(2)
    have "map_of (files srv') path = map_of (files ?srv1) path" by simp
    then show ?thesis using Cons.prems(2) by (simp add: map_of_dict_set_other)
  qed
qed

lemma create_order_files_writes:
  "create_order_files s orders srv = (None, srv') \<Longrightarrow>
   \<forall>ob\<in>set orders. \<exists>ob'\<in>set orders. order_file_path ob' = order_file_path ob \<and>
      map_of (files srv') (order_file_path ob) = Some (order_file_body ob' (orderitem_set s ob'))"
proof (induction orders arbitrary: srv)
  case Nil
  then show ?case by simp
next
  case (Cons ob orders)
  have w: "writable srv (order_file_path ob)"
    using Cons.prems by (auto simp: Let_def split: if_splits)
  let ?srv1 = "srv\<lparr>files := dict_set (order_file_path ob)
      (order_file_body ob (orderitem_set s ob)) (files srv)\<rparr>"
  from Cons.prems w have rest: "create_order_files s orders ?srv1 = (None, srv')"
    by (simp add: Let_def)
  note ih = Cons.IH[OF rest]
  have head: "\<exists>ob'\<in>set (ob # orders). order_file_path ob' = order_file_path ob \<and>
      map_of (files srv') (order_file_path ob) = Some (order_file_body ob' (orderitem_set s ob'))"
  proof (cases "\<exists>ob2\<in>set orders. order_file_path ob2 = order_file_path ob")
    case True
    then obtain ob2 where "ob2 \<in> set orders" "order_file_path ob2 = order_file_path ob" by blast
    with ih show ?thesis by fastforce
  next
    case False
    then have "map_of (files srv') (order_file_path ob) = map_of (files ?srv1) (order_file_path ob)"
      by (intro create_order_files_keeps[OF rest]) simp
    then show ?thesis by (simp add: map_of_dict_set)
  qed
  show ?case using head ih by auto
qed

lemma order_update_or_create_next_item_pk:
  "order_update_or_create d s = (res, s') \<Longrightarrow> next_item_pk s' = next_item_pk s"
  by (auto simp: order_update_or_create_def split: sum.splits list.splits)

lemma VtexClientOrder_factory_next_item_pk:
  "VtexClientOrder_factory raws s = (res, s') \<Longrightarrow> next_item_pk s' = next_item_pk s"
proof (induction raws arbitrary: s res s')
  case Nil
  then show ?case by simp
next
  case (Cons raw raws)
  show ?case
  proof (cases "make_order_defaults raw")
    case (Inl e)
    with Cons.prems show ?thesis by (simp add: then_db_def)
  next
    case (Inr d)
    obtain r1 s1 where u: "order_update_or_create d s = (r1, s1)" by fastforce
    note n1 = order_update_or_create_next_item_pk[OF u]
    show ?thesis
    proof (cases r1)
      case (Inl e)
      with Cons.prems Inr u n1 show ?thesis by (auto simp: then_db_def)
    next
      case r1: (Inr obj)
      obtain r2 s2 where rest: "VtexClientOrder_factory raws s1 = (r2, s2)" by fastforce
      have "s' = s2"
        using Cons.prems Inr u r1 rest by (auto simp: then_db_def split: sum.splits)
      then show ?thesis using Cons.IH[OF rest] n1 by simp
    qed
  qed
qed

lemma item_update_or_create_next_order_pk:
  "item_update_or_create order e d s = (res, s') \<Longrightarrow> next_order_pk s' = next_order_pk s"
  by (auto simp: item_update_or_create_def split: sum.splits list.splits)

lemma order_items_loop_next_order_pk:
  "order_items_loop order pairs s = (res, s') \<Longrightarrow> next_order_pk s' = next_order_pk s"
proof (induction pairs arbitrary: s res s')
  case Nil
  then show ?case by simp
next
  case (Cons p pairs)
  obtain index item where p: "p = (index, item)" by (cases p)
  show ?case
  proof (cases "make_item_defaults index item")
    case (Inl e)
    with Cons.prems p show ?thesis by (simp add: then_db_def)
  next
    case d: (Inr d)
    show ?thesis
    proof (cases "getitem item ''ean''")
      case (Inl e)
      with Cons.prems p d show ?thesis by (simp add: then_db_def)
    next
      case e: (Inr e)
      obtain r1 s1 where u: "item_update_or_create order e d s = (r1, s1)" by fastforce
      note n1 = item_update_or_create_next_order_pk[OF u]
      show ?thesis
      proof (cases r1)
        case (Inl err)
        with Cons.prems p d e u n1 show ?thesis by (auto simp: then_db_def)
      next
        case r1: (Inr obj)
        obtain r2 s2 where rest: "order_items_loop order pairs s1 = (r2, s2)" by fastforce
        have "s' = s2"
          using Cons.prems p d e u r1 rest by (auto simp: then_db_def split: sum.splits)
        then show ?thesis using Cons.IH[OF rest] n1 by simp
      qed
    qed
  qed
qed

lemma VtexClientOrderItem_factory_next_order_pk:
  "VtexClientOrderItem_factory orders s = (res, s') \<Longrightarrow> next_order_pk s' = next_order_pk s"
proof (induction orders arbitrary: s res s')
  case Nil
  then show ?case by simp
next
  case (Cons ob orders)
  show ?case
  proof (cases "and_then (getitem (from_api ob) ''items'') py_iter")
    case (Inl e)
    with Cons.prems show ?thesis by (simp add: then_db_def)
  next
    case items: (Inr items)
    obtain r1 s1 where loop: "order_items_loop ob (List.enumerate 0 items) s = (r1, s1)"
      by fastforce
    note n1 = order_items_loop_next_order_pk[OF loop]
    show ?thesis
    proof (cases r1)
      case (Inl e)
      with Cons.prems items loop n1 show ?thesis by (auto simp: then_db_def)
    next
      case r1: (Inr objs)
      obtain r2 s2 where rest: "VtexClientOrderItem_factory orders s1 = (r2, s2)" by fastforce
      have "s' = s2"
        using Cons.prems items loop r1 rest by (auto simp: then_db_def split: sum.splits)
      then show ?thesis using Cons.IH[OF rest] n1 by simp
    qed
  qed
qed

text \<open>What a successful run stores and uploads.\<close>

lemma run_success:
  assumes fetch: "get_orders depth a None 1 = Inr fetched"
    and run: "run depth a s srv = (None, s', srv')"
    and oinv: "orders_inv s" and iinv: "items_inv s"
  shows "orders_inv s'" and "items_inv s'"
    and "\<forall>raw\<in>set (take 3 fetched).
       (\<exists>row\<in>set (order_rows s'). raw_order_number raw = Inr (order_number row) \<and>
          (\<forall>e\<in>set (raw_item_eans raw). \<exists>it\<in>set (item_rows s').
             order_fk it = pk row \<and> e = Inr (ean it))) \<and>
       (\<exists>ob. from_api ob \<in> set (take 3 fetched) \<and>
          raw_order_number raw = Inr (order_number ob) \<and>
          map_of (files srv') (order_file_path ob) =
            Some (order_file_body ob (orderitem_set s' ob)))"
proof -
  obtain r1 s1 where f1: "VtexClientOrder_factory (take 3 fetched) s = (r1, s1)" by fastforce
  from run fetch f1 obtain objs where r1: "r1 = Inr objs"
    by (cases r1) (auto simp: run_def)
  obtain r2 s2 where f2: "VtexClientOrderItem_factory objs s1 = (r2, s2)" by fastforce
  from run fetch f1 r1 f2 obtain created where r2: "r2 = Inr created"
    by (cases r2) (auto simp: run_def)
  from run fetch f1 r1 f2 r2 have s': "s' = s2"
    and up: "upload_to_sftp s2 objs srv = (None, srv')"
    by (auto simp: run_def split: prod.splits)
  from up have files: "create_order_files s2 objs srv = (None, srv')"
    by (auto simp: upload_to_sftp_def split: if_splits)
  note st1 = VtexClientOrder_factory_stores[OF oinv f1[unfolded r1]]
  note fr1 = VtexClientOrder_factory_frame[OF f1]
  have iinv1: "items_inv s1"
    using iinv fr1 VtexClientOrder_factory_next_item_pk[OF f1] by (simp add: items_inv_def)
  note st2 = VtexClientOrderItem_factory_stores[OF iinv1 f2[unfolded r2]]
  note fr2 = VtexClientOrderItem_factory_frame[OF f2]
  have rows2: "order_rows s2 = order_rows s1" using fr2 by simp
  show "orders_inv s'"
    using st1 rows2 VtexClientOrderItem_factory_next_order_pk[OF f2]
    by (simp add: orders_inv_def s')
  show "items_inv s'" using st2 by (simp add: s')
  note wr = create_order_files_writes[OF files]
  show "\<forall>raw\<in>set (take 3 fetched).
       (\<exists>row\<in>set (order_rows s'). raw_order_number raw = Inr (order_number row) \<and>
          (\<forall>e\<in>set (raw_item_eans raw). \<exists>it\<in>set (item_rows s').
             order_fk it = pk row \<and> e = Inr (ean it))) \<and>
       (\<exists>ob. from_api ob \<in> set (take 3 fetched) \<and>
          raw_order_number raw = Inr (order_number ob) \<and>
          map_of (files srv') (order_file_path ob) =
            Some (order_file_body ob (orderitem_set s' ob)))"
  proof
    fix raw assume raw: "raw \<in> set (take 3 fetched)"
    with st1 obtain ob where ob: "ob \<in> set objs" "from_api ob = raw"
      "raw_order_number raw = Inr (order_number ob)" by blast
    with st1 obtain row where row: "row \<in> set (order_rows s1)" "pk row = pk ob"
      "order_number row = order_number ob" by blast
    have items: "\<forall>e\<in>set (raw_item_eans raw). \<exists>it\<in>set (item_rows s').
             order_fk it = pk row \<and> e = Inr (ean it)"
      using st2 ob(1,2) row(2) by (simp add: s')
    have stored: "\<exists>row\<in>set (order_rows s'). raw_order_number raw = Inr (order_number row) \<and>
          (\<forall>e\<in>set (raw_item_eans raw). \<exists>it\<in>set (item_rows s').
             order_fk it = pk row \<and> e = Inr (ean it))"
    proof (intro bexI[of _ row] conjI)
      show "raw_order_number raw = Inr (order_number row)" using ob(3) row(3) by simp
      show "\<forall>e\<in>set (raw_item_eans raw). \<exists>it\<in>set (item_rows s').
             order_fk it = pk row \<and> e = Inr (ean it)" by (rule items)
      show "row \<in> set (order_rows s')" using row(1) rows2 by (simp add: s')
    qed
    from wr ob(1) obtain ob' where ob': "ob' \<in> set objs"
      "order_file_path ob' = order_file_path ob"
      "map_of (files srv') (order_file_path ob) = Some (order_file_body ob' (orderitem_set s2 ob'))"
      by blast
    have same: "order_number ob' = order_number ob"
      using ob'(2) by (simp add: order_file_path_def)
    from st1 ob'(1) obtain raw' where "raw' \<in> set (take 3 fetched)" "from_api ob' = raw'"
      using fr1 r1 by blast
    then have "from_api ob' \<in> set (take 3 fetched)" by simp
    moreover have "raw_order_number raw = Inr (order_number ob')" using ob(3) same by simp
    moreover have "map_of (files srv') (order_file_path ob') =
        Some (order_file_body ob' (orderitem_set s' ob'))"
      using ob'(2,3) by (simp add: s')
    ultimately have uploaded: "\<exists>ob. from_api ob \<in> set (take 3 fetched) \<and>
          raw_order_number raw = Inr (order_number ob) \<and>
          map_of (files srv') (order_file_path ob) =
            Some (order_file_body ob (orderitem_set s' ob))"
      by blast
    show "(\<exists>row\<in>set (order_rows s'). raw_order_number raw = Inr (order_number row) \<and>
          (\<forall>e\<in>set (raw_item_eans raw). \<exists>it\<in>set (item_rows s').
             order_fk it = pk row \<and> e = Inr (ean it))) \<and>
       (\<exists>ob. from_api ob \<in> set (take 3 fetched) \<and>
          raw_order_number raw = Inr (order_number ob) \<and>
          map_of (files srv') (order_file_path ob) =
            Some (order_file_body ob (orderitem_set s' ob)))"
      using stored uploaded by blast
  qed
qed

lemma run_frame:
  assumes fetch: "get_orders depth a None 1 = Inr fetched"
    and run: "run depth a s srv = (r, s', srv')"
  shows "(get_orders depth b None 1 = Inr fetched' \<and> take 3 fetched' = take 3 fetched \<longrightarrow>
            run depth b s srv = (r, s', srv')) \<and>
         (\<forall>row\<in>set (order_rows s'). row \<in> set (order_rows s) \<or>
            (\<exists>raw\<in>set (take 3 fetched). raw_order_number raw = Inr (order_number row))) \<and>
         (\<forall>it\<in>set (item_rows s'). it \<in> set (item_rows s) \<or>
            (\<exists>raw\<in>set (take 3 fetched). Inr (ean it) \<in> set (raw_item_eans raw))) \<and>
         (\<forall>f\<in>set (files srv'). f \<in> set (files srv) \<or>
            (\<exists>raw\<in>set (take 3 fetched). \<exists>n. raw_order_number raw = Inr n \<and>
               fst f = ''ag-pruebas/'' @ n @ ''.txt''))"
proof (intro conjI impI)
  assume "get_orders depth b None 1 = Inr fetched' \<and> take 3 fetched' = take 3 fetched"
  then have "run depth b s srv = run depth a s srv"
    using fetch by (simp add: run_def)
  then show "run depth b s srv = (r, s', srv')" using run by simp
next
  obtain r1 s1 where f1: "VtexClientOrder_factory (take 3 fetched) s = (r1, s1)" by fastforce
  note fr1 = VtexClientOrder_factory_frame[OF f1]
  have "(\<forall>row\<in>set (order_rows s'). row \<in> set (order_rows s) \<or>
            (\<exists>raw\<in>set (take 3 fetched). raw_order_number raw = Inr (order_number row))) \<and>
         (\<forall>it\<in>set (item_rows s'). it \<in> set (item_rows s) \<or>
            (\<exists>raw\<in>set (take 3 fetched). Inr (ean it) \<in> set (raw_item_eans raw))) \<and>
         (\<forall>f\<in>set (files srv'). f \<in> set (files srv) \<or>
            (\<exists>raw\<in>set (take 3 fetched). \<exists>n. raw_order_number raw = Inr n \<and>
               fst f = ''ag-pruebas/'' @ n @ ''.txt''))"
  proof (cases r1)
    case (Inl e)
    with run fetch f1 have "s' = s1" "srv' = srv" by (simp_all add: run_def)
    then show ?thesis using fr1 by simp
  next
    case r1: (Inr objs)
    have from3: "\<forall>ob\<in>set objs. \<exists>raw\<in>set (take 3 fetched).
        from_api ob = raw \<and> raw_order_number raw = Inr (order_number ob)"
      using fr1 r1 by blast
    obtain r2 s2 where f2: "VtexClientOrderItem_factory objs s1 = (r2, s2)" by fastforce
    note fr2 = VtexClientOrderItem_factory_frame[OF f2]
    have rows: "\<forall>row\<in>set (order_rows s2). row \<in> set (order_rows s) \<or>
            (\<exists>raw\<in>set (take 3 fetched). raw_order_number raw = Inr (order_number row))"
      using fr1 fr2 by simp
    have items: "\<forall>it\<in>set (item_rows s2). it \<in> set (item_rows s) \<or>
            (\<exists>raw\<in>set (take 3 fetched). Inr (ean it) \<in> set (raw_item_eans raw))"
    proof
      fix it assume "it \<in> set (item_rows s2)"
      with fr2 consider "it \<in> set (item_rows s1)"
        | ob where "ob \<in> set objs" "Inr (ean it) \<in> set (raw_item_eans (from_api ob))" by blast
      then show "it \<in> set (item_rows s) \<or>
            (\<exists>raw\<in>set (take 3 fetched). Inr (ean it) \<in> set (raw_item_eans raw))"
      proof cases
        case 1
        then show ?thesis using fr1 by simp
      next
        case 2
        with from3 show ?thesis by blast
      qed
    qed
    show ?thesis
    proof (cases r2)
      case (Inl e)
      with run fetch f1 r1 f2 have "s' = s2" "srv' = srv" by (simp_all add: run_def)
      then show ?thesis using rows items by simp
    next
      case r2: (Inr created)
      obtain r3 srv3 where up: "upload_to_sftp s2 objs srv = (r3, srv3)" by fastforce
      with run fetch f1 r1 f2 r2 have s': "s' = s2" and srv': "srv' = srv3"
        by (simp_all add: run_def)
      have "\<forall>f\<in>set (files srv3). f \<in> set (files srv) \<or>
              (\<exists>ob\<in>set objs. fst f = order_file_path ob)"
      proof (cases "accepts srv")
        case False
        with up show ?thesis by (simp add: upload_to_sftp_def)
      next
        case True
        with up have "create_order_files s2 objs srv = (r3, srv3)"
          by (simp add: upload_to_sftp_def)
        then show ?thesis by (rule create_order_files_frame)
      qed
      then have "\<forall>f\<in>set (files srv3). f \<in> set (files srv) \<or>
            (\<exists>raw\<in>set (take 3 fetched). \<exists>n. raw_order_number raw = Inr n \<and>
               fst f = ''ag-pruebas/'' @ n @ ''.txt'')"
        using from3 by (fastforce simp: order_file_path_def)
      then show ?thesis using rows items s' srv' by simp
    qed
  qed
  then show "\<forall>row\<in>set (order_rows s'). row \<in> set (order_rows s) \<or>
            (\<exists>raw\<in>set (take 3 fetched). raw_order_number raw = Inr (order_number row))"
    and "\<forall>it\<in>set (item_rows s'). it \<in> set (item_rows s) \<or>
            (\<exists>raw\<in>set (take 3 fetched). Inr (ean it) \<in> set (raw_item_eans raw))"
    and "\<forall>f\<in>set (files srv'). f \<in> set (files srv) \<or>
            (\<exists>raw\<in>set (take 3 fetched). \<exists>n. raw_order_number raw = Inr n \<and>
               fst f = ''ag-pruebas/'' @ n @ ''.txt'')"
    by simp_all
qed



text \<open>
  C10. \<open>run\<close> uses the fetched list only through its first three orders: a fetch
  that returns another list with the same first three orders gives the same result,
  store and remote files. After the run, successful or not, every order row is a
  row of the store before it or carries the number of one of the first three
  orders, every item row is a row from before or has the EAN of an item of one of
  them, and every remote file is a file from before or is named after one of them.
  After a successful run on a store with distinct primary keys and order numbers,
  each of the first three orders has a row with its number, that row owns an item
  row for every item of the order, and the remote store holds the order's file,
  written from an order of the first three with that number and its item rows.
\<close>

theorem run_first_three:
  assumes fetch: "get_orders depth a None 1 = Inr fetched"
    and run: "run depth a s srv = (r, s', srv')"
  shows "(get_orders depth b None 1 = Inr fetched' \<and> take 3 fetched' = take 3 fetched \<longrightarrow>
            run depth b s srv = (r, s', srv')) \<and>
         (\<forall>row\<in>set (order_rows s'). row \<in> set (order_rows s) \<or>
            (\<exists>raw\<in>set (take 3 fetched). raw_order_number raw = Inr (order_number row))) \<and>
         (\<forall>it\<in>set (item_rows s'). it \<in> set (item_rows s) \<or>
            (\<exists>raw\<in>set (take 3 fetched). Inr (ean it) \<in> set (raw_item_eans raw))) \<and>
         (\<forall>f\<in>set (files srv'). f \<in> set (files srv) \<or>
            (\<exists>raw\<in>set (take 3 fetched). \<exists>n. raw_order_number raw = Inr n \<and>
               fst f = ''ag-pruebas/'' @ n @ ''.txt'')) \<and>
         (r = None \<and> orders_inv s \<and> items_inv s \<longrightarrow>
            orders_inv s' \<and> items_inv s' \<and>
            (\<forall>raw\<in>set (take 3 fetched).
               (\<exists>row\<in>set (order_rows s'). raw_order_number raw = Inr (order_number row) \<and>
                  (\<forall>e\<in>set (raw_item_eans raw). \<exists>it\<in>set (item_rows s').
                     order_fk it = pk row \<and> e = Inr (ean it))) \<and>
               (\<exists>ob. from_api ob \<in> set (take 3 fetched) \<and>
                  raw_order_number raw = Inr (order_number ob) \<and>
                  map_of (files srv') (order_file_path ob) =
                    Some (order_file_body ob (orderitem_set s' ob)))))"
proof -
  note fr = run_frame[OF fetch run, of b fetched']
  have pos: "orders_inv s' \<and> items_inv s' \<and>
            (\<forall>raw\<in>set (take 3 fetched).
               (\<exists>row\<in>set (order_rows s'). raw_order_number raw = Inr (order_number row) \<and>
                  (\<forall>e\<in>set (raw_item_eans raw). \<exists>it\<in>set (item_rows s').
                     order_fk it = pk row \<and> e = Inr (ean it))) \<and>
               (\<exists>ob. from_api ob \<in> set (take 3 fetched) \<and>
                  raw_order_number raw = Inr (order_number ob) \<and>
                  map_of (files srv') (order_file_path ob) =
                    Some (order_file_body ob (orderitem_set s' ob))))"
    if "r = None \<and> orders_inv s \<and> items_inv s"
  proof -
    from that run have run': "run depth a s srv = (None, s', srv')" by simp
    from that have oinv: "orders_inv s" and iinv: "items_inv s" by simp_all
    note rs = run_success[OF fetch run' oinv iinv]
    show ?thesis by (intro conjI rs)
  qed
  note pos' = impI[OF pos]
  show ?thesis
    by (rule conjI[OF fr[THEN conjunct1]
          conjI[OF fr[THEN conjunct2, THEN conjunct1]
            conjI[OF fr[THEN conjunct2, THEN conjunct2, THEN conjunct1]
              conjI[OF fr[THEN conjunct2, THEN conjunct2, THEN conjunct2] pos']]]])
qed

lemma four_orders_fetch:
  "get_orders (Suc 0) four_orders_api None 1 =
     Inr [sample_raw_order ''a'' [sample_item ''77a'' 2 15050],
          sample_raw_order ''b'' [sample_item ''77b'' 2 15050],
          sample_raw_order ''c'' [sample_item ''77c'' 2 15050],
          sample_raw_order ''d'' [sample_item ''77d'' 2 15050]]"
  by (simp add: four_orders_api_def page_response_def order_summary_def
      json_defs get_order_detail_def Let_def)

lemma sample_upsert_create:
  "\<forall>row\<in>set (order_rows s). order_number row \<noteq> number \<Longrightarrow>
   VtexClientOrder_factory (sample_raw_order number items # raws) s =
     then_db (VtexClientOrder_factory raws
                (s\<lparr>order_rows := order_rows s @ [sample_order (next_order_pk s) number items],
                   next_order_pk := Suc (next_order_pk s)\<rparr>))
       (\<lambda>objects s''. (Inr (sample_order (next_order_pk s) number items # objects), s''))"
proof -
  assume "\<forall>row\<in>set (order_rows s). order_number row \<noteq> number"
  then have "filter (\<lambda>r. order_number r = number) (order_rows s) = []"
    by (simp add: filter_empty_conv)
  then show ?thesis
    by (simp add: sample_order_defaults then_db_def order_update_or_create_def lookup_text_def
        py_str_def and_then_def set_order_defaults_def db_text_def
        VtexClientOrder_init_def sample_order_def sample_now_def)
qed

lemma four_orders_run:
  "run (Suc 0) four_orders_api empty_db open_server =
     (None, db_three_orders, open_server\<lparr>files := files_three_orders\<rparr>)"
  unfolding run_def four_orders_fetch
  by (simp add: sample_upsert_create sample_item_defaults sample_item_ean sample_item_create
      empty_db_def then_db_def enumerate_simps upload_to_sftp_def
      open_server_def orderitem_set_def order_file_path_def db_three_orders_def
      files_three_orders_def sample_item_row_def numeral_2_eq_2 numeral_3_eq_3 eval_nat_numeral
      del: VtexClientOrder_factory.simps(2))

lemma items_inv_empty: "items_inv empty_db"
  by (simp add: items_inv_def empty_db_def)

theorem run_first_three_witness:
  "get_orders (Suc 0) four_orders_api None 1 =
     Inr [sample_raw_order ''a'' [sample_item ''77a'' 2 15050],
          sample_raw_order ''b'' [sample_item ''77b'' 2 15050],
          sample_raw_order ''c'' [sample_item ''77c'' 2 15050],
          sample_raw_order ''d'' [sample_item ''77d'' 2 15050]] \<and>
   run (Suc 0) four_orders_api empty_db open_server =
     (None, db_three_orders, open_server\<lparr>files := files_three_orders\<rparr>) \<and>
   orders_inv empty_db \<and> items_inv empty_db \<and>
   orders_inv db_three_orders \<and> items_inv db_three_orders \<and>
   map order_number (order_rows db_three_orders) = [''a'', ''b'', ''c''] \<and>
   map ean (item_rows db_three_orders) = [''77a'', ''77b'', ''77c''] \<and>
   map order_fk (item_rows db_three_orders) = map pk (order_rows db_three_orders) \<and>
   map fst files_three_orders = [''ag-pruebas/a.txt'', ''ag-pruebas/b.txt'', ''ag-pruebas/c.txt'']"
proof -
  note T = run_first_three[OF four_orders_fetch four_orders_run, of four_orders_api "[]"]
  have hyp: "None = None \<and> orders_inv empty_db \<and> items_inv empty_db"
    by (simp add: orders_inv_empty items_inv_empty)
  note P = T[THEN conjunct2, THEN conjunct2, THEN conjunct2, THEN conjunct2, THEN mp, OF hyp]
  have invs: "orders_inv db_three_orders" "items_inv db_three_orders"
    using P by blast+
  have numbers: "map order_number (order_rows db_three_orders) = [''a'', ''b'', ''c'']"
    by (simp add: db_three_orders_def)
  have eans: "map ean (item_rows db_three_orders) = [''77a'', ''77b'', ''77c'']"
    by (simp add: db_three_orders_def sample_item_row_def)
  have fks: "map order_fk (item_rows db_three_orders) = map pk (order_rows db_three_orders)"
    by (simp add: db_three_orders_def sample_item_row_def)
  have paths: "map fst files_three_orders =
      [''ag-pruebas/a.txt'', ''ag-pruebas/b.txt'', ''ag-pruebas/c.txt'']"
    by (simp add: files_three_orders_def)
  show ?thesis
    by (intro conjI four_orders_fetch four_orders_run orders_inv_empty items_inv_empty invs
        numbers eans fks paths)
qed

end
